theory Spec2Isabelle
  imports Complex_Main "HOL-Library.AList"
begin

section \<open>JavaScript numbers\<close>

text \<open>
  The indicator module computes on JavaScript numbers. A number is modelled as a
  real (finite values, with exact arithmetic: the rounding and overflow of binary
  floating point are added in a section of their own, for the function whose values
  turn on them; the sign of zero is not modelled) or one of the three special values
  \<open>NaN\<close>, \<open>+Infinity\<close>, \<open>-Infinity\<close>, which follow the IEEE-754 rules of the
  language: a division by zero, \<open>Math.min()\<close> of nothing and the square root of a
  negative number produce them, and they propagate through arithmetic.
\<close>

datatype jsnum = Fin real | NaN | PInf | NInf

instantiation jsnum :: "{plus, uminus, minus, times, inverse, ord, abs}"
begin

fun plus_jsnum :: "jsnum \<Rightarrow> jsnum \<Rightarrow> jsnum" where
  "plus_jsnum (Fin a) (Fin b) = Fin (a + b)"
| "plus_jsnum NaN _ = NaN"
| "plus_jsnum _ NaN = NaN"
| "plus_jsnum PInf NInf = NaN"
| "plus_jsnum NInf PInf = NaN"
| "plus_jsnum PInf _ = PInf"
| "plus_jsnum _ PInf = PInf"
| "plus_jsnum NInf _ = NInf"
| "plus_jsnum _ NInf = NInf"

fun uminus_jsnum :: "jsnum \<Rightarrow> jsnum" where
  "uminus_jsnum (Fin a) = Fin (- a)"
| "uminus_jsnum NaN = NaN"
| "uminus_jsnum PInf = NInf"
| "uminus_jsnum NInf = PInf"

definition minus_jsnum :: "jsnum \<Rightarrow> jsnum \<Rightarrow> jsnum" where
  "minus_jsnum a b = a + (- b)"

fun times_jsnum :: "jsnum \<Rightarrow> jsnum \<Rightarrow> jsnum" where
  "times_jsnum (Fin a) (Fin b) = Fin (a * b)"
| "times_jsnum NaN _ = NaN"
| "times_jsnum _ NaN = NaN"
| "times_jsnum (Fin a) PInf = (if a = 0 then NaN else if 0 < a then PInf else NInf)"
| "times_jsnum (Fin a) NInf = (if a = 0 then NaN else if 0 < a then NInf else PInf)"
| "times_jsnum PInf (Fin b) = (if b = 0 then NaN else if 0 < b then PInf else NInf)"
| "times_jsnum NInf (Fin b) = (if b = 0 then NaN else if 0 < b then NInf else PInf)"
| "times_jsnum PInf PInf = PInf"
| "times_jsnum PInf NInf = NInf"
| "times_jsnum NInf PInf = NInf"
| "times_jsnum NInf NInf = PInf"

text \<open>A zero divisor is taken as \<open>+0\<close>.\<close>

fun divide_jsnum :: "jsnum \<Rightarrow> jsnum \<Rightarrow> jsnum" where
  "divide_jsnum (Fin a) (Fin b) =
     (if b \<noteq> 0 then Fin (a / b) else if a = 0 then NaN else if 0 < a then PInf else NInf)"
| "divide_jsnum NaN _ = NaN"
| "divide_jsnum _ NaN = NaN"
| "divide_jsnum (Fin a) PInf = Fin 0"
| "divide_jsnum (Fin a) NInf = Fin 0"
| "divide_jsnum PInf (Fin b) = (if 0 \<le> b then PInf else NInf)"
| "divide_jsnum NInf (Fin b) = (if 0 \<le> b then NInf else PInf)"
| "divide_jsnum PInf PInf = NaN"
| "divide_jsnum PInf NInf = NaN"
| "divide_jsnum NInf PInf = NaN"
| "divide_jsnum NInf NInf = NaN"

definition inverse_jsnum :: "jsnum \<Rightarrow> jsnum" where
  "inverse_jsnum a = divide (Fin 1) a"

text \<open>Every comparison with \<open>NaN\<close> is false.\<close>

fun less_jsnum :: "jsnum \<Rightarrow> jsnum \<Rightarrow> bool" where
  "less_jsnum (Fin a) (Fin b) = (a < b)"
| "less_jsnum NaN _ = False"
| "less_jsnum _ NaN = False"
| "less_jsnum NInf NInf = False"
| "less_jsnum NInf _ = True"
| "less_jsnum _ NInf = False"
| "less_jsnum PInf _ = False"
| "less_jsnum _ PInf = True"

definition less_eq_jsnum :: "jsnum \<Rightarrow> jsnum \<Rightarrow> bool" where
  "less_eq_jsnum a b = (a < b \<or> (a = b \<and> a \<noteq> NaN))"

fun abs_jsnum :: "jsnum \<Rightarrow> jsnum" where
  "abs_jsnum (Fin a) = Fin \<bar>a\<bar>"
| "abs_jsnum NaN = NaN"
| "abs_jsnum PInf = PInf"
| "abs_jsnum NInf = PInf"

instance ..

end

text \<open>\<open>Math.sqrt\<close>.\<close>

fun jsqrt :: "jsnum \<Rightarrow> jsnum" where
  "jsqrt (Fin a) = (if a < 0 then NaN else Fin (sqrt a))"
| "jsqrt NaN = NaN"
| "jsqrt PInf = PInf"
| "jsqrt NInf = NaN"

text \<open>\<open>Math.min\<close> and \<open>Math.max\<close>: \<open>NaN\<close> if an argument is \<open>NaN\<close>;
  with no argument, \<open>+Infinity\<close> and \<open>-Infinity\<close>.\<close>

definition jmin :: "jsnum \<Rightarrow> jsnum \<Rightarrow> jsnum" where
  "jmin a b = (if a = NaN \<or> b = NaN then NaN else if a \<le> b then a else b)"

definition jmax :: "jsnum \<Rightarrow> jsnum \<Rightarrow> jsnum" where
  "jmax a b = (if a = NaN \<or> b = NaN then NaN else if a \<le> b then b else a)"

definition Math_min :: "jsnum list \<Rightarrow> jsnum" where
  "Math_min xs = foldl jmin PInf xs"

definition Math_max :: "jsnum list \<Rightarrow> jsnum" where
  "Math_max xs = foldl jmax NInf xs"

text \<open>
  \<open>parseFloat(x.toFixed(d))\<close>: below \<open>10^21\<close> in magnitude, \<open>toFixed\<close> prints the
  multiple of \<open>10^-d\<close> nearest to the magnitude, the larger one on a tie, with the sign
  in front; from \<open>10^21\<close> on it prints the number itself. The special values print as
  their names, which \<open>parseFloat\<close> reads back.
\<close>

definition round_dp :: "nat \<Rightarrow> real \<Rightarrow> real" where
  "round_dp d x =
     (if 10 ^ 21 \<le> \<bar>x\<bar> then x
      else sgn x * (of_int \<lfloor>\<bar>x\<bar> * 10 ^ d + 1 / 2\<rfloor> / 10 ^ d))"

fun toFixed :: "nat \<Rightarrow> jsnum \<Rightarrow> jsnum" where
  "toFixed d (Fin x) = Fin (round_dp d x)"
| "toFixed d v = v"

text \<open>Truthiness of a number: \<open>0\<close> and \<open>NaN\<close> are falsy.\<close>

fun truthy :: "jsnum \<Rightarrow> bool" where
  "truthy (Fin a) = (a \<noteq> 0)"
| "truthy NaN = False"
| "truthy _ = True"

text \<open>A nullable number used in arithmetic or in a comparison: \<open>null\<close> converts to \<open>0\<close>.\<close>

fun num_of :: "jsnum option \<Rightarrow> jsnum" where
  "num_of None = Fin 0"
| "num_of (Some v) = v"

text \<open>
  \<open>Array.prototype.slice(start, end)\<close>: a negative index counts from the end of the
  array, and both indices are clamped to the array.
\<close>

definition js_slice :: "'a list \<Rightarrow> int \<Rightarrow> int \<Rightarrow> 'a list" where
  "js_slice xs start fin =
     (let len = int (length xs);
          k = (if start < 0 then max (len + start) 0 else min start len);
          e = (if fin < 0 then max (len + fin) 0 else min fin len)
      in take (nat (e - k)) (drop (nat k) xs))"

section \<open>Statistics primitives\<close>

definition mean :: "jsnum list \<Rightarrow> jsnum" where
  "mean arr =
     (if length arr = 0 then Fin 0
      else foldl (\<lambda>s v. s + v) (Fin 0) arr / Fin (real (length arr)))"

definition stdDev :: "jsnum list \<Rightarrow> jsnum" where
  "stdDev arr =
     (if length arr < 2 then Fin 0
      else let m = mean arr;
               variance = foldl (\<lambda>s v. s + (v - m) * (v - m)) (Fin 0) arr
                            / Fin (real (length arr))
           in jsqrt variance)"

section \<open>Bollinger bands\<close>

record band =
  upper :: "jsnum option"
  middle :: "jsnum option"
  lower :: "jsnum option"

definition bollingerBands :: "jsnum list \<Rightarrow> nat \<Rightarrow> jsnum \<Rightarrow> band list" where
  "bollingerBands closes period multk =
     map (\<lambda>i.
            if int i < int period - 1 then \<lparr>upper = None, middle = None, lower = None\<rparr>
            else let slice = js_slice closes (int i - int period + 1) (int i + 1);
                     ma = mean slice;
                     sd = stdDev slice
                 in \<lparr>upper = Some (toFixed 2 (ma + multk * sd)),
                     middle = Some (toFixed 2 ma),
                     lower = Some (toFixed 2 (ma - multk * sd))\<rparr>)
         [0 ..< length closes]"

text \<open>
  \<open>latestBB\<close> returns \<open>null\<close> (here \<open>None\<close>) or a band. With no close at all and
  period \<open>0\<close> the source reads \<open>bands[-1]\<close>, which is \<open>undefined\<close>; the callers only
  test the result for truthiness, and it is \<open>None\<close> here as well.
\<close>

definition latestBB :: "jsnum list \<Rightarrow> nat \<Rightarrow> jsnum \<Rightarrow> band option" where
  "latestBB closes period multk =
     (if length closes < period then
        (if length closes < 2 then None
         else let ma = mean closes;
                  sd = stdDev closes
              in Some \<lparr>upper = Some (toFixed 2 (ma + multk * sd)),
                       middle = Some (toFixed 2 ma),
                       lower = Some (toFixed 2 (ma - multk * sd))\<rparr>)
      else let bands = bollingerBands closes period multk
           in (if bands = [] then None else Some (bands ! (length bands - 1))))"

definition bbRatio :: "jsnum \<Rightarrow> jsnum \<Rightarrow> jsnum \<Rightarrow> jsnum" where
  "bbRatio currentPrice up lo =
     (let range = up - lo
      in if range \<le> Fin 0 then Fin (1 / 2)
         else let ratio = (currentPrice - lo) / range
              in jmax (Fin 0) (jmin (Fin 1) (toFixed 4 ratio)))"

text \<open>
  Labels and stars are JavaScript strings, kept as their UTF-16 code units: the four
  labels of \<open>alertLevel\<close> are Korean text, a star is U+2605.
\<close>

type_synonym jsstring = "nat list"

record alert =
  level :: nat
  label :: jsstring
  stars :: jsstring
  ratio :: jsnum

definition alertLevel :: "jsnum \<Rightarrow> jsnum \<Rightarrow> jsnum \<Rightarrow> jsnum \<Rightarrow> alert" where
  "alertLevel currentPrice up mid lo =
     (let ratio = bbRatio currentPrice up lo
      in if Fin (1 / 2) \<le> ratio
         then \<lparr>level = 0, label = [0xC815, 0xC0C1], stars = [], ratio = ratio\<rparr>
         else let lowerRange = mid - lo;
                  lowerRatio = (if Fin 0 < lowerRange then (currentPrice - lo) / lowerRange
                                else Fin 1)
              in if lowerRatio < Fin (25 / 100)
                 then \<lparr>level = 2, label = [0x42, 0x42, 0xD558, 0xB2E8, 0xADFC, 0xC811],
                       stars = [0x2605, 0x2605], ratio = ratio\<rparr>
                 else if lowerRatio < Fin (55 / 100)
                 then \<lparr>level = 1, label = [0x42, 0x42, 0xD558, 0xB2E8, 0xC811, 0xADFC],
                       stars = [0x2605], ratio = ratio\<rparr>
                 else \<lparr>level = 0, label = [0x42, 0x42, 0xC911, 0xB2E8, 0xC774, 0xD558],
                       stars = [], ratio = ratio\<rparr>)"


section \<open>Candles\<close>

text \<open>
  One bar of price data. The indicator functions read \<open>high\<close>, \<open>low\<close>, \<open>close\<close>,
  \<open>volume\<close> and \<open>date\<close>; the field \<open>open\<close> of the source is \<open>opn\<close> here.
\<close>

record candle =
  date :: string
  opn :: jsnum
  high :: jsnum
  low :: jsnum
  close :: jsnum
  volume :: jsnum

datatype signal = BUY | SELL

datatype error = TypeError

text \<open>\<open>arr[i]\<close> for an index that may lie outside the array, where it is \<open>undefined\<close>.\<close>

definition js_index :: "'a list \<Rightarrow> int \<Rightarrow> 'a option" where
  "js_index xs i = (if 0 \<le> i \<and> i < int (length xs) then Some (xs ! nat i) else None)"

text \<open>
  The smoothing loops of \<open>eom\<close> and \<open>stochastic\<close> have one shape: the result array is
  filled with \<open>null\<close>; for every index from \<open>start\<close> on, the window
  \<open>arr.slice(i - w + 1, i + 1)\<close> is skipped if it holds a \<open>null\<close>, and otherwise
  its mean, passed through \<open>post\<close>, is stored.
\<close>

definition sma_loop ::
  "(jsnum \<Rightarrow> jsnum) \<Rightarrow> int \<Rightarrow> nat \<Rightarrow> jsnum option list \<Rightarrow> jsnum option list" where
  "sma_loop post start w arr =
     map (\<lambda>i. if int i < start then None
              else (case those (js_slice arr (int i - int w + 1) (int i + 1)) of
                      None \<Rightarrow> None
                    | Some slice \<Rightarrow> Some (post (mean slice))))
         [0 ..< length arr]"

section \<open>Ease of movement\<close>

record eom_point =
  eom_val :: "jsnum option"
  signal_val :: "jsnum option"
  crossSignal :: "signal option"

definition eom_raw :: "candle list \<Rightarrow> jsnum option list" where
  "eom_raw candles =
     map (\<lambda>i. if i = 0 then None
              else let c = candles ! i;
                       p = candles ! (i - 1);
                       hl = high c - low c
                   in if hl = Fin 0 \<or> \<not> truthy (volume c) then Some (Fin 0)
                      else let dm = (high c + low c) / Fin 2 - (high p + low p) / Fin 2;
                               br = volume c / hl
                           in Some (if br \<noteq> Fin 0 then dm / br else Fin 0))
         [0 ..< length candles]"

text \<open>
  Step 4 of \<open>eom\<close> at bar \<open>i\<close>. At bar \<open>0\<close> the previous values \<open>eomArr[-1]\<close> and
  \<open>sigArr[-1]\<close> are read: \<open>eomArr[-1]\<close> is \<open>undefined\<close>, which is not \<open>null\<close>,
  but every comparison with it is false, so no branch fires.
\<close>

definition eom_cross ::
  "jsnum option list \<Rightarrow> jsnum option list \<Rightarrow> nat \<Rightarrow> signal option" where
  "eom_cross eomArr sigArr i =
     (case (eomArr ! i, sigArr ! i) of
        (Some e, Some s) \<Rightarrow>
          (if i = 0 then None
           else (case (eomArr ! (i - 1), sigArr ! (i - 1)) of
                   (Some ep, Some sp) \<Rightarrow>
                     (if ep \<le> sp \<and> s < e then Some BUY
                      else if sp \<le> ep \<and> e < s then Some SELL
                      else if ep < Fin 0 \<and> Fin 0 \<le> e then Some BUY
                      else if Fin 0 \<le> ep \<and> e < Fin 0 then Some SELL
                      else None)
                 | _ \<Rightarrow> None))
      | _ \<Rightarrow> None)"

definition eom :: "candle list \<Rightarrow> nat \<Rightarrow> nat \<Rightarrow> eom_point list" where
  "eom candles period sig =
     (let n = length candles;
          raw = eom_raw candles;
          eomArr = sma_loop (\<lambda>v. v) (int period) period raw;
          sigArr = sma_loop (\<lambda>v. v) (int period + int sig - 1) sig eomArr
      in map (\<lambda>i. \<lparr>eom_val = eomArr ! i, signal_val = sigArr ! i,
                    crossSignal = eom_cross eomArr sigArr i\<rparr>)
             [0 ..< n])"

section \<open>Relative strength index\<close>

text \<open>The expression that both loops of \<open>rsi\<close> store.\<close>

definition rsi_value :: "jsnum \<Rightarrow> jsnum \<Rightarrow> jsnum" where
  "rsi_value avgGain avgLoss =
     (if avgLoss = Fin 0 then Fin 100
      else if avgGain = Fin 0 then Fin 0
      else toFixed 2 (Fin 100 - Fin 100 / (Fin 1 + avgGain / avgLoss)))"

definition rsi_init :: "jsnum list \<Rightarrow> nat \<Rightarrow> jsnum \<times> jsnum" where
  "rsi_init closes period =
     foldl (\<lambda>(avgGain, avgLoss) i.
              let diff = closes ! i - closes ! (i - 1)
              in if Fin 0 < diff then (avgGain + diff, avgLoss)
                 else (avgGain, avgLoss + \<bar>diff\<bar>))
           (Fin 0, Fin 0) [1 ..< period + 1]"

definition rsi_step ::
  "jsnum list \<Rightarrow> nat \<Rightarrow> jsnum \<times> jsnum \<times> jsnum option list \<Rightarrow> nat
     \<Rightarrow> jsnum \<times> jsnum \<times> jsnum option list" where
  "rsi_step closes period st i =
     (case st of (avgGain, avgLoss, out) \<Rightarrow>
        let diff = closes ! i - closes ! (i - 1);
            gain = (if Fin 0 < diff then diff else Fin 0);
            loss = (if diff < Fin 0 then \<bar>diff\<bar> else Fin 0);
            avgGain' = (avgGain * Fin (real period - 1) + gain) / Fin (real period);
            avgLoss' = (avgLoss * Fin (real period - 1) + loss) / Fin (real period)
        in (avgGain', avgLoss', out[i := Some (rsi_value avgGain' avgLoss')]))"

definition rsi :: "jsnum list \<Rightarrow> nat \<Rightarrow> jsnum option list" where
  "rsi closes period =
     (let n = length closes;
          out = replicate n None
      in if n < period + 1 then out
         else let (sumGain, sumLoss) = rsi_init closes period;
                  avgGain = sumGain / Fin (real period);
                  avgLoss = sumLoss / Fin (real period);
                  out1 = out[period := Some (rsi_value avgGain avgLoss)]
              in snd (snd (foldl (rsi_step closes period) (avgGain, avgLoss, out1)
                                 [period + 1 ..< n])))"

section \<open>Slow stochastic\<close>

record stoch_point =
  fastK :: "jsnum option"
  slowK :: "jsnum option"
  slowD :: "jsnum option"

text \<open>
  The raw \<open>%K\<close> column, for a period \<open>k1\<close> of at least 1. (With \<open>k1 = 0\<close> the
  loop does not get this far, see \<open>stochastic\<close>.)
\<close>

definition stoch_fastK :: "candle list \<Rightarrow> nat \<Rightarrow> jsnum option list" where
  "stoch_fastK candles k1 =
     map (\<lambda>i. if int i < int k1 - 1 then None
              else let slice = js_slice candles (int i - int k1 + 1) (int i + 1);
                       lo = Math_min (map low slice);
                       hi = Math_max (map high slice);
                       rng = hi - lo
                   in Some (if rng = Fin 0 then Fin 50
                            else toFixed 2 ((close (candles ! i) - lo) / rng * Fin 100)))
         [0 ..< length candles]"

text \<open>
  With \<open>k1 = 0\<close> the first loop starts at \<open>i = -1\<close>, which is below the length of
  every array: the window \<open>candles.slice(0, 0)\<close> is empty, its range is
  \<open>-Infinity - Infinity\<close> and not \<open>0\<close>, and \<open>candles[-1].close\<close> reads a property of
  \<open>undefined\<close>, which throws a \<open>TypeError\<close>.
\<close>

definition stochastic ::
  "candle list \<Rightarrow> nat \<Rightarrow> nat \<Rightarrow> nat \<Rightarrow> error + stoch_point list" where
  "stochastic candles k1 k2 d =
     (if k1 = 0 then Inl TypeError
      else let n = length candles;
               fK = stoch_fastK candles k1;
               sK = sma_loop (toFixed 2) (int k1 + int k2 - 2) k2 fK;
               sD = sma_loop (toFixed 2) (int k1 + int k2 + int d - 3) d sK
           in Inr (map (\<lambda>i. \<lparr>fastK = fK ! i, slowK = sK ! i, slowD = sD ! i\<rparr>) [0 ..< n]))"

section \<open>RSI and stochastic combined\<close>

record rsist_point =
  rs_rsi :: "jsnum option"
  rs_slowK :: "jsnum option"
  rs_slowD :: "jsnum option"
  rs_signal :: "signal option"

text \<open>
  The signal of \<open>rsiStoch\<close> at bar \<open>i\<close>. The previous bar is tested for a non-null
  \<open>slowK\<close> only; its \<open>slowD\<close> enters the comparisons as it is, and a \<open>null\<close> there
  converts to \<open>0\<close>. The two \<open>if\<close> statements run in sequence, so SELL overrides BUY.
\<close>

definition rsist_signal ::
  "jsnum option list \<Rightarrow> stoch_point list \<Rightarrow> jsnum \<Rightarrow> jsnum \<Rightarrow> nat \<Rightarrow> signal option" where
  "rsist_signal rsiArr stochArr ob os i =
     (case (rsiArr ! i, slowK (stochArr ! i), slowD (stochArr ! i)) of
        (Some r, Some k, Some dv) \<Rightarrow>
          (let kCrossUp = (0 < i \<and> slowK (stochArr ! (i - 1)) \<noteq> None
                            \<and> num_of (slowK (stochArr ! (i - 1))) \<le> num_of (slowD (stochArr ! (i - 1)))
                            \<and> dv < k);
               kCrossDown = (0 < i \<and> slowK (stochArr ! (i - 1)) \<noteq> None
                            \<and> num_of (slowD (stochArr ! (i - 1))) \<le> num_of (slowK (stochArr ! (i - 1)))
                            \<and> k < dv);
               s1 = (if r < Fin 50 \<and> k < os + Fin 10 \<and> kCrossUp then Some BUY else None)
           in if Fin 50 < r \<and> ob - Fin 10 < k \<and> kCrossDown then Some SELL else s1)
      | _ \<Rightarrow> None)"

text \<open>
  \<open>rsiStoch\<close> computes the RSI array, then the stochastic array, whose exception it
  lets through. It maps over the RSI array and reads \<open>stochArr[i].slowK\<close> at every
  index: with more closes than candles \<open>stochArr[i]\<close> is \<open>undefined\<close> there and the
  read throws a \<open>TypeError\<close>.
\<close>

definition rsiStoch ::
  "jsnum list \<Rightarrow> candle list \<Rightarrow> nat \<Rightarrow> nat \<Rightarrow> nat \<Rightarrow> nat \<Rightarrow> jsnum \<Rightarrow> jsnum
     \<Rightarrow> error + rsist_point list" where
  "rsiStoch closes candles rsiPeriod k1 k2 d ob os =
     (let rsiArr = rsi closes rsiPeriod
      in case stochastic candles k1 k2 d of
           Inl e \<Rightarrow> Inl e
         | Inr stochArr \<Rightarrow>
             if length stochArr < length rsiArr then Inl TypeError
             else Inr (map (\<lambda>i. \<lparr>rs_rsi = rsiArr ! i,
                                  rs_slowK = slowK (stochArr ! i),
                                  rs_slowD = slowD (stochArr ! i),
                                  rs_signal = rsist_signal rsiArr stochArr ob os i\<rparr>)
                           [0 ..< length rsiArr]))"

section \<open>Pearson correlation of returns\<close>

text \<open>
  A JavaScript \<open>Map\<close> keeps its keys in insertion order and \<open>set\<close> on a present key
  replaces the value in place: an association list with \<open>AList.update\<close>. \<open>get\<close> on
  an absent key is \<open>undefined\<close>, which is \<open>NaN\<close> in arithmetic.
\<close>

definition map_get :: "(string \<times> jsnum) list \<Rightarrow> string \<Rightarrow> jsnum" where
  "map_get m d = (case map_of m d of Some v \<Rightarrow> v | None \<Rightarrow> NaN)"

definition rateMap :: "candle list \<Rightarrow> (string \<times> jsnum) list" where
  "rateMap candles =
     foldl (\<lambda>m i. let prev = close (candles ! (i - 1));
                       cur = close (candles ! i)
                   in if truthy prev \<and> truthy cur
                      then AList.update (date (candles ! i)) ((cur - prev) / prev) m
                      else m)
           [] [1 ..< length candles]"

definition common_dates :: "candle list \<Rightarrow> candle list \<Rightarrow> string list" where
  "common_dates candlesA candlesB =
     filter (\<lambda>d. map_of (rateMap candlesB) d \<noteq> None) (map fst (rateMap candlesA))"

text \<open>
  The three sums \<open>num\<close>, \<open>denX\<close>, \<open>denY\<close> that \<open>_pearson\<close> accumulates over the
  common dates; \<open>None\<close> when it has returned \<open>null\<close> before, for fewer than five
  common dates.
\<close>

definition pearson_sums ::
  "candle list \<Rightarrow> candle list \<Rightarrow> (jsnum \<times> jsnum \<times> jsnum) option" where
  "pearson_sums candlesA candlesB =
     (let mA = rateMap candlesA;
          mB = rateMap candlesB;
          dates = common_dates candlesA candlesB
      in if length dates < 5 then None
         else let xs = map (map_get mA) dates;
                  ys = map (map_get mB) dates;
                  n = length xs;
                  meanX = foldl (\<lambda>s v. s + v) (Fin 0) xs / Fin (real n);
                  meanY = foldl (\<lambda>s v. s + v) (Fin 0) ys / Fin (real n)
              in Some (foldl (\<lambda>(num, denX, denY) i.
                                let dx = xs ! i - meanX;
                                    dy = ys ! i - meanY
                                in (num + dx * dy, denX + dx * dx, denY + dy * dy))
                             (Fin 0, Fin 0, Fin 0) [0 ..< n]))"

definition pearson :: "candle list \<Rightarrow> candle list \<Rightarrow> jsnum option" where
  "pearson candlesA candlesB =
     (case pearson_sums candlesA candlesB of
        None \<Rightarrow> None
      | Some (num, denX, denY) \<Rightarrow>
          (let den = jsqrt (denX * denY)
           in if den = Fin 0 then None else Some (num / den)))"

section \<open>Binary floating point\<close>

text \<open>
  A JavaScript number is an IEEE-754 binary64 value, and an arithmetic operation returns
  the exact result rounded to the nearest such value, ties to the even significand.
  The bounds of a correlation coefficient turn on this rounding, so \<open>_pearson\<close> is given
  a second time on binary64 numbers: with the exact operations of above, each followed
  by the rounding \<open>fl\<close>. (The sign of zero is not modelled.)

  \<open>rne\<close> rounds a real to the nearest integer, ties to even. \<open>binade x\<close> is the
  exponent \<open>e\<close> with \<open>2 ^ e \<le> \<bar>x\<bar> < 2 ^ (e + 1)\<close>, kept within the exponents -1022 to
  1023 of the normal numbers: the subnormal numbers have the spacing of the smallest
  binade. \<open>round64\<close> rounds a real to the multiples of \<open>2 ^ (e - 52)\<close>, and to the
  infinity of its sign when the rounded value passes the largest finite number.
\<close>

definition rne :: "real \<Rightarrow> int" where
  "rne x = (let f = \<lfloor>x\<rfloor>; r = x - of_int f
            in if r < 1 / 2 then f else if 1 / 2 < r then f + 1
               else if even f then f else f + 1)"

definition binade :: "real \<Rightarrow> int" where
  "binade x = (case List.find (\<lambda>e. \<bar>x\<bar> < 2 powi (e + 1)) [- 1022 .. 1023] of
                 Some e \<Rightarrow> e | None \<Rightarrow> 1023)"

definition round64 :: "real \<Rightarrow> jsnum" where
  "round64 x = (let e = binade x - 52;
                    y = of_int (rne (x / 2 powi e)) * 2 powi e
                in if 2 ^ 1024 \<le> \<bar>y\<bar> then (if 0 < x then PInf else NInf) else Fin y)"

fun fl :: "jsnum \<Rightarrow> jsnum" where
  "fl (Fin x) = round64 x"
| "fl v = v"

text \<open>\<open>_pearson\<close> on binary64 numbers; the number of dates is an integer and exact.\<close>

definition rateMap64 :: "candle list \<Rightarrow> (string \<times> jsnum) list" where
  "rateMap64 candles =
     foldl (\<lambda>m i. let prev = close (candles ! (i - 1));
                       cur = close (candles ! i)
                   in if truthy prev \<and> truthy cur
                      then AList.update (date (candles ! i)) (fl (fl (cur - prev) / prev)) m
                      else m)
           [] [1 ..< length candles]"

definition common_dates64 :: "candle list \<Rightarrow> candle list \<Rightarrow> string list" where
  "common_dates64 candlesA candlesB =
     filter (\<lambda>d. map_of (rateMap64 candlesB) d \<noteq> None) (map fst (rateMap64 candlesA))"

definition pearson64 :: "candle list \<Rightarrow> candle list \<Rightarrow> jsnum option" where
  "pearson64 candlesA candlesB =
     (let mA = rateMap64 candlesA;
          mB = rateMap64 candlesB;
          dates = common_dates64 candlesA candlesB
      in if length dates < 5 then None
         else let xs = map (map_get mA) dates;
                  ys = map (map_get mB) dates;
                  n = length xs;
                  meanX = fl (foldl (\<lambda>s v. fl (s + v)) (Fin 0) xs / Fin (real n));
                  meanY = fl (foldl (\<lambda>s v. fl (s + v)) (Fin 0) ys / Fin (real n));
                  (num, denX, denY) =
                     foldl (\<lambda>(num, denX, denY) i.
                              let dx = fl (xs ! i - meanX);
                                  dy = fl (ys ! i - meanY)
                              in (fl (num + fl (dx * dy)), fl (denX + fl (dx * dx)),
                                  fl (denY + fl (dy * dy))))
                           (Fin 0, Fin 0, Fin 0) [0 ..< n];
                  den = fl (jsqrt (fl (denX * denY)))
              in if den = Fin 0 then None else Some (fl (num / den)))"

section \<open>The composite facade\<close>

text \<open>
  The fields of the stock data that \<open>analyze\<close> and \<open>analyzeAll\<close> read; \<open>allCandles\<close>
  may be absent. The result spreads the input and adds \<open>bb\<close>, \<open>bbRatio\<close>, \<open>alert\<close>
  and \<open>candlesWithBB\<close> (the fields \<open>bbRatio_val\<close> and \<open>alert_val\<close> here).
\<close>

record stock_data =
  closes :: "jsnum list"
  candles :: "candle list"
  allCandles :: "candle list option"
  currentPrice :: jsnum

record 'c analysis = stock_data +
  bb :: "band option"
  bbRatio_val :: jsnum
  alert_val :: alert
  candlesWithBB :: "'c list"

record bb_candle = candle +
  bbUpper :: "jsnum option"
  bbMiddle :: "jsnum option"
  bbLower :: "jsnum option"

record ind_candle = bb_candle +
  eom_v :: "jsnum option"
  eomSignal :: "jsnum option"
  eomCross :: "signal option"
  rsi_v :: "jsnum option"
  slowK_v :: "jsnum option"
  slowD_v :: "jsnum option"
  rsiStSignal :: "signal option"

text \<open>The display window that \<open>_parse\<close> cuts from the full series.\<close>

definition periodCandles :: "candle list \<Rightarrow> nat \<Rightarrow> candle list" where
  "periodCandles allC candleCount =
     (if candleCount < length allC
      then js_slice allC (- int candleCount) (int (length allC))
      else allC)"

definition analyze :: "stock_data \<Rightarrow> nat \<Rightarrow> bb_candle analysis" where
  "analyze stockData period =
     (let allBands = bollingerBands (closes stockData) period (Fin 2);
          latest = latestBB (closes stockData) period (Fin 2);
          totalLen = length (case allCandles stockData of
                               Some a \<Rightarrow> a | None \<Rightarrow> candles stockData);
          sliceLen = length (candles stockData);
          offset = int totalLen - int sliceLen;
          withBB = map (\<lambda>i. let c = candles stockData ! i;
                                 bi = offset + int i
                             in \<lparr>date = date c, opn = opn c, high = high c, low = low c,
                                 close = close c, volume = volume c,
                                 bbUpper = (case js_index allBands bi of
                                              None \<Rightarrow> None | Some b \<Rightarrow> upper b),
                                 bbMiddle = (case js_index allBands bi of
                                               None \<Rightarrow> None | Some b \<Rightarrow> middle b),
                                 bbLower = (case js_index allBands bi of
                                              None \<Rightarrow> None | Some b \<Rightarrow> lower b)\<rparr>)
                       [0 ..< sliceLen];
          al = (case latest of
                  Some b \<Rightarrow> alertLevel (currentPrice stockData) (num_of (upper b))
                              (num_of (middle b)) (num_of (lower b))
                | None \<Rightarrow> \<lparr>level = 0, label = [0x2D, 0x2D], stars = [],
                            ratio = Fin (1 / 2)\<rparr>)
      in \<lparr>closes = closes stockData, candles = candles stockData,
          allCandles = allCandles stockData, currentPrice = currentPrice stockData,
          bb = latest, bbRatio_val = ratio al, alert_val = al, candlesWithBB = withBB\<rparr>)"

definition analyzeAll :: "stock_data \<Rightarrow> nat \<Rightarrow> error + ind_candle analysis" where
  "analyzeAll stockData bbPeriod =
     (let base = analyze stockData bbPeriod;
          allC = (case allCandles stockData of
                    Some a \<Rightarrow> a | None \<Rightarrow> candles stockData);
          allCls = closes stockData;
          total = length allC;
          slice = length (candles stockData);
          offset = int total - int slice;
          eomAll = eom allC 14 14
      in case rsiStoch allCls allC 14 14 3 3 (Fin 80) (Fin 20) of
           Inl e \<Rightarrow> Inl e
         | Inr rsStAll \<Rightarrow>
             Inr \<lparr>closes = closes base, candles = candles base,
                  allCandles = allCandles base, currentPrice = currentPrice base,
                  bb = bb base, bbRatio_val = bbRatio_val base, alert_val = alert_val base,
                  candlesWithBB =
                    map (\<lambda>i. let c = candlesWithBB base ! i;
                                  bi = offset + int i
                              in \<lparr>date = date c, opn = opn c, high = high c, low = low c,
                                  close = close c, volume = volume c,
                                  bbUpper = bbUpper c, bbMiddle = bbMiddle c,
                                  bbLower = bbLower c,
                                  eom_v = (case js_index eomAll bi of
                                             None \<Rightarrow> None | Some p \<Rightarrow> eom_val p),
                                  eomSignal = (case js_index eomAll bi of
                                                 None \<Rightarrow> None | Some p \<Rightarrow> signal_val p),
                                  eomCross = (case js_index eomAll bi of
                                                None \<Rightarrow> None | Some p \<Rightarrow> crossSignal p),
                                  rsi_v = (case js_index rsStAll bi of
                                             None \<Rightarrow> None | Some p \<Rightarrow> rs_rsi p),
                                  slowK_v = (case js_index rsStAll bi of
                                               None \<Rightarrow> None | Some p \<Rightarrow> rs_slowK p),
                                  slowD_v = (case js_index rsStAll bi of
                                               None \<Rightarrow> None | Some p \<Rightarrow> rs_slowD p),
                                  rsiStSignal = (case js_index rsStAll bi of
                                                   None \<Rightarrow> None | Some p \<Rightarrow> rs_signal p)\<rparr>)
                        [0 ..< length (candlesWithBB base)]\<rparr>)"


section \<open>Example series\<close>

text \<open>
  Five bars with range 2 and volume 2 each, so that the raw ease of movement of a bar
  is the move of its midpoint: 10, -10, 0, -1.
\<close>

definition cross_example :: "candle list" where
  "cross_example =
     [\<lparr>date = ''2024-01-02'', opn = Fin 100, high = Fin 101, low = Fin 99,
        close = Fin 100, volume = Fin 2\<rparr>,
      \<lparr>date = ''2024-01-03'', opn = Fin 110, high = Fin 111, low = Fin 109,
        close = Fin 110, volume = Fin 2\<rparr>,
      \<lparr>date = ''2024-01-04'', opn = Fin 100, high = Fin 101, low = Fin 99,
        close = Fin 100, volume = Fin 2\<rparr>,
      \<lparr>date = ''2024-01-05'', opn = Fin 100, high = Fin 101, low = Fin 99,
        close = Fin 100, volume = Fin 2\<rparr>,
      \<lparr>date = ''2024-01-08'', opn = Fin 99, high = Fin 100, low = Fin 98,
        close = Fin 99, volume = Fin 2\<rparr>]"

text \<open>
  Eighteen daily bars: a steady rise by 1 a day with a range of 2, then a first lower
  close on the last bar.
\<close>

definition uptrend_example :: "candle list" where
  "uptrend_example =
     [\<lparr>date = ''2024-01-02'', opn = Fin 99, high = Fin 101, low = Fin 99,
        close = Fin 100, volume = Fin 1000\<rparr>,
      \<lparr>date = ''2024-01-03'', opn = Fin 100, high = Fin 102, low = Fin 100,
        close = Fin 101, volume = Fin 1000\<rparr>,
      \<lparr>date = ''2024-01-04'', opn = Fin 101, high = Fin 103, low = Fin 101,
        close = Fin 102, volume = Fin 1000\<rparr>,
      \<lparr>date = ''2024-01-05'', opn = Fin 102, high = Fin 104, low = Fin 102,
        close = Fin 103, volume = Fin 1000\<rparr>,
      \<lparr>date = ''2024-01-08'', opn = Fin 103, high = Fin 105, low = Fin 103,
        close = Fin 104, volume = Fin 1000\<rparr>,
      \<lparr>date = ''2024-01-09'', opn = Fin 104, high = Fin 106, low = Fin 104,
        close = Fin 105, volume = Fin 1000\<rparr>,
      \<lparr>date = ''2024-01-10'', opn = Fin 105, high = Fin 107, low = Fin 105,
        close = Fin 106, volume = Fin 1000\<rparr>,
      \<lparr>date = ''2024-01-11'', opn = Fin 106, high = Fin 108, low = Fin 106,
        close = Fin 107, volume = Fin 1000\<rparr>,
      \<lparr>date = ''2024-01-12'', opn = Fin 107, high = Fin 109, low = Fin 107,
        close = Fin 108, volume = Fin 1000\<rparr>,
      \<lparr>date = ''2024-01-15'', opn = Fin 108, high = Fin 110, low = Fin 108,
        close = Fin 109, volume = Fin 1000\<rparr>,
      \<lparr>date = ''2024-01-16'', opn = Fin 109, high = Fin 111, low = Fin 109,
        close = Fin 110, volume = Fin 1000\<rparr>,
      \<lparr>date = ''2024-01-17'', opn = Fin 110, high = Fin 112, low = Fin 110,
        close = Fin 111, volume = Fin 1000\<rparr>,
      \<lparr>date = ''2024-01-18'', opn = Fin 111, high = Fin 113, low = Fin 111,
        close = Fin 112, volume = Fin 1000\<rparr>,
      \<lparr>date = ''2024-01-19'', opn = Fin 112, high = Fin 114, low = Fin 112,
        close = Fin 113, volume = Fin 1000\<rparr>,
      \<lparr>date = ''2024-01-22'', opn = Fin 113, high = Fin 115, low = Fin 113,
        close = Fin 114, volume = Fin 1000\<rparr>,
      \<lparr>date = ''2024-01-23'', opn = Fin 114, high = Fin 116, low = Fin 114,
        close = Fin 115, volume = Fin 1000\<rparr>,
      \<lparr>date = ''2024-01-24'', opn = Fin 115, high = Fin 117, low = Fin 115,
        close = Fin 116, volume = Fin 1000\<rparr>,
      \<lparr>date = ''2024-01-25'', opn = Fin 116, high = Fin 117, low = Fin 114,
        close = Fin 115, volume = Fin 1000\<rparr>]"

text \<open>
  A bar of one price: the binary64 number nearest to the decimal \<open>c\<close>, as a price
  parsed from the text of a quote. Then two series over the same six dates, the second
  ten times the first, and two series over the same seven dates, the first listing them
  forward and the second backward.
\<close>

definition flat_bar :: "string \<Rightarrow> real \<Rightarrow> candle" where
  "flat_bar d c = \<lparr>date = d, opn = fl (Fin c), high = fl (Fin c), low = fl (Fin c),
                   close = fl (Fin c), volume = Fin 0\<rparr>"



definition forward_example :: "candle list" where
  "forward_example =
     [flat_bar ''2024-01-02'' 8,
      flat_bar ''2024-01-03'' 9,
      flat_bar ''2024-01-04'' 8,
      flat_bar ''2024-01-05'' 8,
      flat_bar ''2024-01-08'' 9,
      flat_bar ''2024-01-09'' 4,
      flat_bar ''2024-01-10'' 3]"

definition backward_example :: "candle list" where
  "backward_example =
     [flat_bar ''2024-01-10'' 9,
      flat_bar ''2024-01-09'' 8,
      flat_bar ''2024-01-08'' 3,
      flat_bar ''2024-01-05'' 2,
      flat_bar ''2024-01-04'' 8,
      flat_bar ''2024-01-03'' 5,
      flat_bar ''2024-01-02'' 3]"

section \<open>Mean and deviation of finite numbers\<close>

text \<open>
  The values of \<open>mean\<close> and \<open>stdDev\<close> on an array of finite numbers, as real
  numbers: used to state results, and shown below to be what the two functions return.
\<close>

definition mean_r :: "real list \<Rightarrow> real" where
  "mean_r xs = (if xs = [] then 0 else sum_list xs / real (length xs))"

definition stdDev_r :: "real list \<Rightarrow> real" where
  "stdDev_r xs =
     (if length xs < 2 then 0
      else sqrt ((\<Sum>v\<leftarrow>xs. (v - mean_r xs) * (v - mean_r xs)) / real (length xs)))"

section \<open>Finite numbers and the correlation of real series\<close>

text \<open>
  \<open>is_fin\<close> tells the finite numbers from \<open>NaN\<close> and the infinities, \<open>fin_val\<close>
  reads the real value of a finite number. \<open>corr_on D f g\<close> is the Pearson
  coefficient of the real series \<open>f\<close> and \<open>g\<close> over the points \<open>D\<close>, undefined
  when a series has no variance: used to state what \<open>pearson\<close> returns on finite
  closes.
\<close>

fun is_fin :: "jsnum \<Rightarrow> bool" where
  "is_fin (Fin _) = True"
| "is_fin _ = False"

fun fin_val :: "jsnum \<Rightarrow> real" where
  "fin_val (Fin r) = r"
| "fin_val _ = 0"

definition corr_on :: "'a list \<Rightarrow> ('a \<Rightarrow> real) \<Rightarrow> ('a \<Rightarrow> real) \<Rightarrow> real option" where
  "corr_on D f g =
     (let n = real (length D);
          mx = (\<Sum>d\<leftarrow>D. f d) / n;
          my = (\<Sum>d\<leftarrow>D. g d) / n;
          num = (\<Sum>d\<leftarrow>D. (f d - mx) * (g d - my));
          dX = (\<Sum>d\<leftarrow>D. (f d - mx) * (f d - mx));
          dY = (\<Sum>d\<leftarrow>D. (g d - my) * (g d - my));
          den = sqrt (dX * dY)
      in if den = 0 then None else Some (num / den))"

text \<open>A nullable number that is \<open>null\<close> or finite; a candle whose numbers are finite.\<close>

fun fin_opt :: "jsnum option \<Rightarrow> bool" where
  "fin_opt None = True"
| "fin_opt (Some v) = is_fin v"

definition fin_candle :: "candle \<Rightarrow> bool" where
  "fin_candle c \<longleftrightarrow> is_fin (high c) \<and> is_fin (low c) \<and> is_fin (close c) \<and> is_fin (volume c)"

section \<open>Input of ordinary magnitude\<close>

text \<open>
  Numbers of absolute value at most \<open>10 ^ 12\<close>; prices between \<open>10 ^ -6\<close> and
  \<open>10 ^ 12\<close>; volumes that are 0 or between 1 and \<open>10 ^ 15\<close>; candles with such
  prices and volume. On input of this kind the sums, products and quotients of the
  indicators stay far away from the overflow of binary floating point.
\<close>

fun plain_num :: "jsnum \<Rightarrow> bool" where
  "plain_num (Fin r) = (\<bar>r\<bar> \<le> 10 ^ 12)"
| "plain_num _ = False"

fun plain_price :: "jsnum \<Rightarrow> bool" where
  "plain_price (Fin r) = (1 / 10 ^ 6 \<le> r \<and> r \<le> 10 ^ 12)"
| "plain_price _ = False"

fun plain_volume :: "jsnum \<Rightarrow> bool" where
  "plain_volume (Fin r) = (r = 0 \<or> (1 \<le> r \<and> r \<le> 10 ^ 15))"
| "plain_volume _ = False"

definition plain_candle :: "candle \<Rightarrow> bool" where
  "plain_candle c \<longleftrightarrow>
     plain_price (high c) \<and> plain_price (low c) \<and> plain_price (close c) \<and> plain_volume (volume c)"

section \<open>Arithmetic on finite numbers\<close>

lemma Fin_minus [simp]: "Fin a - Fin b = Fin (a - b)"
  by (simp add: minus_jsnum_def)

lemma Fin_le [simp]: "(Fin a \<le> Fin b) = (a \<le> b)"
  by (auto simp: less_eq_jsnum_def)

lemma jmin_Fin [simp]: "jmin (Fin a) (Fin b) = Fin (min a b)"
  by (simp add: jmin_def min_def)

lemma jmax_Fin [simp]: "jmax (Fin a) (Fin b) = Fin (max a b)"
  by (simp add: jmax_def max_def)

section \<open>Alert classification\<close>

text \<open>
  C6 (alert asymmetry). Whatever the band, a current price strictly above the middle
  band is classified as level 0, however far above the middle or the upper band it
  lies: \<open>alertLevel\<close> has no overbought level. The statement holds for every number,
  finite or not.
\<close>

theorem alertLevel_above_middle:
  "mid < price \<Longrightarrow> level (alertLevel price up mid lo) = 0"
  by (cases price; cases up; cases mid; cases lo)
     (auto simp: alertLevel_def bbRatio_def Let_def field_simps minus_jsnum_def
        less_eq_jsnum_def jmin_def jmax_def split: if_splits)

theorem alertLevel_above_middle_witness:
  "Fin 100 < Fin 1000 \<and> level (alertLevel (Fin 1000) (Fin 110) (Fin 100) (Fin 90)) = 0"
  using alertLevel_above_middle [of "Fin 100" "Fin 1000" "Fin 110" "Fin 90"] by simp

section \<open>Warm-up boundaries\<close>

lemma length_bollingerBands [simp]: "length (bollingerBands cs p m) = length cs"
  by (simp add: bollingerBands_def)

lemma bollingerBands_nth:
  "i < length cs \<Longrightarrow> bollingerBands cs p m ! i =
     (if int i < int p - 1 then \<lparr>upper = None, middle = None, lower = None\<rparr>
      else let slice = js_slice cs (int i - int p + 1) (int i + 1);
               ma = mean slice; sd = stdDev slice
           in \<lparr>upper = Some (toFixed 2 (ma + m * sd)),
               middle = Some (toFixed 2 ma),
               lower = Some (toFixed 2 (ma - m * sd))\<rparr>)"
  by (simp add: bollingerBands_def)

text \<open>The Wilder loop writes exactly the cells it visits, and nothing but numbers.\<close>

lemma rsi_step_out:
  "snd (snd (rsi_step cs p st i)) =
     (snd (snd st))[i := Some (rsi_value (fst (rsi_step cs p st i))
                                         (fst (snd (rsi_step cs p st i))))]"
  by (cases st) (simp add: rsi_step_def Let_def)

lemma rsi_loop_length:
  "length (snd (snd (foldl (rsi_step cs p) st is))) = length (snd (snd st))"
  by (induction "is" arbitrary: st) (simp_all add: rsi_step_out)

lemma rsi_loop_notin:
  "j \<notin> set is \<Longrightarrow> snd (snd (foldl (rsi_step cs p) st is)) ! j = snd (snd st) ! j"
  by (induction "is" arbitrary: st) (simp_all add: rsi_step_out)

lemma rsi_loop_in:
  "j \<in> set is \<Longrightarrow> j < length (snd (snd st)) \<Longrightarrow>
     snd (snd (foldl (rsi_step cs p) st is)) ! j \<noteq> None"
proof (induction "is" arbitrary: st)
  case Nil
  then show ?case by simp
next
  case (Cons x xs)
  show ?case
  proof (cases "j \<in> set xs")
    case True
    with Cons show ?thesis by (simp add: rsi_step_out)
  next
    case False
    with Cons.prems have "j = x" by simp
    with False Cons.prems show ?thesis
      by (simp add: rsi_loop_notin rsi_step_out)
  qed
qed

lemma length_rsi [simp]: "length (rsi cs p) = length cs"
  by (simp add: rsi_def Let_def rsi_loop_length split: prod.splits)

lemma rsi_null_iff:
  assumes "i < length cs"
  shows "rsi cs p ! i = None \<longleftrightarrow> i < p"
proof (cases "length cs < p + 1")
  case True
  with assms show ?thesis by (simp add: rsi_def Let_def)
next
  case False
  obtain g l where gl: "rsi_init cs p = (g, l)" by (cases "rsi_init cs p")
  define st where "st = (g / Fin (real p), l / Fin (real p),
     (replicate (length cs) None)[p := Some (rsi_value (g / Fin (real p)) (l / Fin (real p)))])"
  have r: "rsi cs p = snd (snd (foldl (rsi_step cs p) st [p + 1 ..< length cs]))"
    using False gl by (simp add: rsi_def Let_def st_def)
  have len: "length (snd (snd st)) = length cs" by (simp add: st_def)
  consider "i < p" | "i = p" | "p < i" by linarith
  then show ?thesis
  proof cases
    case 1
    then have "i \<notin> set [p + 1 ..< length cs]" by simp
    then have "rsi cs p ! i = snd (snd st) ! i" unfolding r by (rule rsi_loop_notin)
    with 1 assms show ?thesis by (simp add: st_def)
  next
    case 2
    then have "i \<notin> set [p + 1 ..< length cs]" by simp
    then have "rsi cs p ! i = snd (snd st) ! i" unfolding r by (rule rsi_loop_notin)
    with 2 assms show ?thesis by (simp add: st_def)
  next
    case 3
    with assms have "i \<in> set [p + 1 ..< length cs]" by simp
    then have "rsi cs p ! i \<noteq> None"
      unfolding r using assms len by (intro rsi_loop_in) simp_all
    with 3 show ?thesis by simp
  qed
qed

text \<open>
  C3 (warm-up null boundary). Both arrays have one entry per close. At every index
  \<open>i\<close> of the input, each field of the Bollinger entry is \<open>null\<close> exactly when
  \<open>i < period - 1\<close> (the subtraction is the one of the source, on integers), and the
  RSI entry is \<open>null\<close> exactly when \<open>i < period\<close>. This holds for every array of
  numbers, every period and every multiplier.
\<close>

theorem warmup_null_boundary:
  "i < length cs \<Longrightarrow>
     length (bollingerBands cs period m) = length cs \<and>
     (upper (bollingerBands cs period m ! i) = None \<longleftrightarrow> int i < int period - 1) \<and>
     (middle (bollingerBands cs period m ! i) = None \<longleftrightarrow> int i < int period - 1) \<and>
     (lower (bollingerBands cs period m ! i) = None \<longleftrightarrow> int i < int period - 1) \<and>
     length (rsi cs period) = length cs \<and>
     (rsi cs period ! i = None \<longleftrightarrow> i < period)"
  by (simp add: bollingerBands_nth rsi_null_iff Let_def)

theorem warmup_null_boundary_witness:
  "(1::nat) < length [Fin 10, Fin 11, Fin 12] \<and>
   upper (bollingerBands [Fin 10, Fin 11, Fin 12] 2 (Fin 2) ! 1) \<noteq> None \<and>
   rsi [Fin 10, Fin 11, Fin 12] 2 ! 1 = None"
  using warmup_null_boundary [of 1 "[Fin 10, Fin 11, Fin 12]" 2 "Fin 2"] by simp

section \<open>The latest band\<close>

lemma js_slice_all [simp]: "js_slice xs 0 (int (length xs)) = xs"
  by (simp add: js_slice_def)

lemma latestBB_full:
  "p \<le> length cs \<Longrightarrow> latestBB cs p m = (if cs = [] then None else Some (last (bollingerBands cs p m)))"
  by (auto simp: latestBB_def Let_def last_conv_nth bollingerBands_def)

lemma last_bollingerBands_all:
  assumes "cs \<noteq> []"
  shows "last (bollingerBands cs (length cs) m) =
     \<lparr>upper = Some (toFixed 2 (mean cs + m * stdDev cs)),
      middle = Some (toFixed 2 (mean cs)),
      lower = Some (toFixed 2 (mean cs - m * stdDev cs))\<rparr>"
proof -
  obtain n where n: "length cs = Suc n" using assms by (cases cs) auto
  have sl: "js_slice cs (int n - int (Suc n) + 1) (int n + 1) = cs"
    using js_slice_all [of cs] n by (simp add: add.commute)
  have ne: "bollingerBands cs (Suc n) m \<noteq> []"
  proof
    assume "bollingerBands cs (Suc n) m = []"
    then have "length (bollingerBands cs (Suc n) m) = 0" by (simp only: list.size)
    with n show False by simp
  qed
  have "last (bollingerBands cs (length cs) m) = bollingerBands cs (Suc n) m ! n"
    using n last_conv_nth [OF ne] by simp
  also have "\<dots> = \<lparr>upper = Some (toFixed 2 (mean cs + m * stdDev cs)),
      middle = Some (toFixed 2 (mean cs)),
      lower = Some (toFixed 2 (mean cs - m * stdDev cs))\<rparr>"
    using n by (simp only: bollingerBands_nth [of n cs "Suc n" m] sl Let_def) simp
  finally show ?thesis .
qed

text \<open>
  C7 (graceful degradation of \<open>latestBB\<close>). With fewer closes than the period and at
  least two of them, the result is the band computed over all the closes, none of its
  fields \<open>null\<close>: the same band as the last entry of \<open>bollingerBands\<close> with the
  period set to the number of closes. With fewer closes than the period and fewer than
  two, the result is \<open>null\<close>. With at least \<open>period\<close> closes the result is the last
  entry of \<open>bollingerBands closes period\<close> (for an empty array, which has no last entry,
  the source yields \<open>undefined\<close>).
\<close>

theorem latestBB_degradation:
  "(length cs < period \<and> 2 \<le> length cs \<longrightarrow>
      latestBB cs period m = Some \<lparr>upper = Some (toFixed 2 (mean cs + m * stdDev cs)),
                                   middle = Some (toFixed 2 (mean cs)),
                                   lower = Some (toFixed 2 (mean cs - m * stdDev cs))\<rparr> \<and>
      latestBB cs period m = Some (last (bollingerBands cs (length cs) m))) \<and>
   (length cs < period \<and> length cs < 2 \<longrightarrow> latestBB cs period m = None) \<and>
   (period \<le> length cs \<longrightarrow>
      latestBB cs period m = (if cs = [] then None else Some (last (bollingerBands cs period m))))"
proof (intro conjI impI)
  assume a: "length cs < period \<and> 2 \<le> length cs"
  then show b: "latestBB cs period m = Some \<lparr>upper = Some (toFixed 2 (mean cs + m * stdDev cs)),
                                   middle = Some (toFixed 2 (mean cs)),
                                   lower = Some (toFixed 2 (mean cs - m * stdDev cs))\<rparr>"
    by (simp add: latestBB_def Let_def)
  from a have "cs \<noteq> []" by auto
  then show "latestBB cs period m = Some (last (bollingerBands cs (length cs) m))"
    using b by (simp add: last_bollingerBands_all)
next
  assume "length cs < period \<and> length cs < 2"
  then show "latestBB cs period m = None" by (simp add: latestBB_def)
next
  assume "period \<le> length cs"
  then show "latestBB cs period m = (if cs = [] then None else Some (last (bollingerBands cs period m)))"
    by (rule latestBB_full)
qed

theorem latestBB_degradation_witness:
  "latestBB [Fin 1, Fin 3] 20 (Fin 2) =
     Some (last (bollingerBands [Fin 1, Fin 3] (length [Fin 1, Fin 3 :: jsnum]) (Fin 2))) \<and>
   latestBB [Fin 1] 20 (Fin 2) = None \<and>
   latestBB [Fin 1, Fin 3, Fin 5] 2 (Fin 2) =
     Some (last (bollingerBands [Fin 1, Fin 3, Fin 5] 2 (Fin 2)))"
proof -
  have a: "length [Fin 1, Fin 3] < (20::nat) \<and> 2 \<le> length [Fin 1, Fin 3]" by simp
  have b: "length [Fin 1] < (20::nat) \<and> length [Fin 1] < 2" by simp
  have c: "(2::nat) \<le> length [Fin 1, Fin 3, Fin 5]" by simp
  have "latestBB [Fin 1, Fin 3] 20 (Fin 2) =
     Some (last (bollingerBands [Fin 1, Fin 3] (length [Fin 1, Fin 3 :: jsnum]) (Fin 2)))"
    using latestBB_degradation [of "[Fin 1, Fin 3]" 20 "Fin 2"] a by blast
  moreover have "latestBB [Fin 1] 20 (Fin 2) = None"
    using latestBB_degradation [of "[Fin 1]" 20 "Fin 2"] b by blast
  moreover have "latestBB [Fin 1, Fin 3, Fin 5] 2 (Fin 2) =
     Some (last (bollingerBands [Fin 1, Fin 3, Fin 5] 2 (Fin 2)))"
    using latestBB_degradation [of "[Fin 1, Fin 3, Fin 5]" 2 "Fin 2"] c by simp
  ultimately show ?thesis by blast
qed


section \<open>The fallback alert of \<open>analyze\<close>\<close>

lemma length_analyze [simp]: "length (candlesWithBB (analyze sd p)) = length (candles sd)"
  by (simp add: analyze_def Let_def)

text \<open>
  C10 (no-band fallback). \<open>analyze\<close> has no failing path: every array read is inside
  the array or goes through the optional chaining of the source. When the closes are
  fewer than two and fewer than the period (the default period is 20), \<open>latestBB\<close> is
  \<open>null\<close>, the alert is the default one with label \<open>--\<close> and ratio \<open>0.5\<close>, and every
  record of \<open>candlesWithBB\<close> has its three band fields \<open>null\<close>, whatever the display
  candles are.
\<close>

theorem analyze_no_band:
  assumes "length (closes sd) < 2" and "length (closes sd) < period"
  shows "bb (analyze sd period) = None \<and>
         alert_val (analyze sd period) = \<lparr>level = 0, label = [0x2D, 0x2D], stars = [], ratio = Fin (1 / 2)\<rparr> \<and>
         bbRatio_val (analyze sd period) = Fin (1 / 2) \<and>
         length (candlesWithBB (analyze sd period)) = length (candles sd) \<and>
         (\<forall>c \<in> set (candlesWithBB (analyze sd period)).
             bbUpper c = None \<and> bbMiddle c = None \<and> bbLower c = None)"
proof -
  have l: "latestBB (closes sd) period (Fin 2) = None"
    using assms by (simp add: latestBB_def)
  have nb: "upper b = None \<and> middle b = None \<and> lower b = None"
    if "js_index (bollingerBands (closes sd) period (Fin 2)) bi = Some b" for bi b
  proof -
    from that have i: "nat bi < length (closes sd)"
      and b: "b = bollingerBands (closes sd) period (Fin 2) ! nat bi"
      by (auto simp: js_index_def split: if_splits)
    from i assms have "int (nat bi) < int period - 1" by linarith
    with i b show ?thesis by (simp add: bollingerBands_nth)
  qed
  show ?thesis
    using l nb by (auto simp: analyze_def Let_def split: option.splits)
qed

theorem analyze_no_band_witness:
  "bb (analyze \<lparr>closes = [Fin 5], candles = [], allCandles = None, currentPrice = Fin 5\<rparr> 20) = None \<and>
   bbRatio_val (analyze \<lparr>closes = [Fin 5], candles = [], allCandles = None, currentPrice = Fin 5\<rparr> 20)
     = Fin (1 / 2)"
  using analyze_no_band
    [of "\<lparr>closes = [Fin 5], candles = [], allCandles = None, currentPrice = Fin 5\<rparr>" 20]
  by simp

text \<open>
  With fewer than two closes but a period that the closes reach, the band exists: one
  close and period 1 give the band of that close.
\<close>

theorem analyze_period_one:
  "length (closes \<lparr>closes = [Fin 5], candles = [], allCandles = Some [], currentPrice = Fin 5\<rparr>) < 2 \<and>
   bb (analyze \<lparr>closes = [Fin 5], candles = [], allCandles = Some [], currentPrice = Fin 5\<rparr> 1)
     \<noteq> None"
  by (simp add: analyze_def latestBB_def Let_def bollingerBands_def)

section \<open>Alignment of the display window\<close>

lemma periodCandles_drop:
  "0 < N \<Longrightarrow> periodCandles allC N = drop (length allC - N) allC"
  by (auto simp: periodCandles_def js_slice_def Let_def nat_diff_distrib')

lemma length_sma_loop [simp]: "length (sma_loop post start w arr) = length arr"
  by (simp add: sma_loop_def)

lemma length_eom [simp]: "length (eom cds p s) = length cds"
  by (simp add: eom_def Let_def)

lemma stochastic_error: "stochastic cds k1 k2 d = Inl e \<longleftrightarrow> k1 = 0"
  by (cases e) (simp add: stochastic_def Let_def)

lemma length_stochastic [simp]:
  "0 < k1 \<Longrightarrow> length (projr (stochastic cds k1 k2 d)) = length cds"
  by (simp add: stochastic_def Let_def)

lemma rsiStoch_cases:
  "rsiStoch cls cds rp k1 k2 d ob os =
     (if k1 = 0 \<or> length cds < length cls then Inl TypeError
      else Inr (map (\<lambda>i. \<lparr>rs_rsi = rsi cls rp ! i,
                           rs_slowK = slowK (projr (stochastic cds k1 k2 d) ! i),
                           rs_slowD = slowD (projr (stochastic cds k1 k2 d) ! i),
                           rs_signal = rsist_signal (rsi cls rp)
                                         (projr (stochastic cds k1 k2 d)) ob os i\<rparr>)
                    [0 ..< length cls]))"
  by (simp add: rsiStoch_def stochastic_def Let_def)

lemma analyze_window:
  assumes "k \<le> j" and "k' \<le> j" and "j < length allC"
  shows "candlesWithBB (analyze \<lparr>closes = cls, candles = drop k allC,
             allCandles = Some allC, currentPrice = pr\<rparr> p) ! (j - k) =
         candlesWithBB (analyze \<lparr>closes = cls, candles = drop k' allC,
             allCandles = Some allC, currentPrice = pr\<rparr> p) ! (j - k')"
proof -
  have a: "int (length allC) - int (length allC - k) + int (j - k) = int j"
    using assms by simp
  have b: "int (length allC) - int (length allC - k') + int (j - k') = int j"
    using assms by simp
  have in1: "j - k < length allC - k" and in2: "j - k' < length allC - k'"
    using assms by simp_all
  show ?thesis using assms in1 in2 by (simp add: analyze_def Let_def a b)
qed

lemma analyzeAll_error:
  "analyzeAll \<lparr>closes = cls, candles = cds, allCandles = Some allC, currentPrice = pr\<rparr> p = Inl e
     \<longleftrightarrow> length allC < length cls"
  by (cases e) (simp add: analyzeAll_def Let_def rsiStoch_cases)

lemma candles_analyze [simp]: "candles (analyze sd p) = candles sd"
  by (simp add: analyze_def Let_def)

lemma analyzeAll_window:
  assumes r: "analyzeAll \<lparr>closes = cls, candles = drop k allC,
             allCandles = Some allC, currentPrice = pr\<rparr> p = Inr r"
    and r': "analyzeAll \<lparr>closes = cls, candles = drop k' allC,
             allCandles = Some allC, currentPrice = pr\<rparr> p = Inr r'"
    and "k \<le> j" and "k' \<le> j" and "j < length allC"
  shows "candlesWithBB r ! (j - k) = candlesWithBB r' ! (j - k')"
proof -
  have a: "int (length allC) - int (length allC - k) + int (j - k) = int j"
    using assms by simp
  have b: "int (length allC) - int (length allC - k') + int (j - k') = int j"
    using assms by simp
  have w: "candlesWithBB (analyze \<lparr>closes = cls, candles = drop k allC,
             allCandles = Some allC, currentPrice = pr\<rparr> p) ! (j - k) =
         candlesWithBB (analyze \<lparr>closes = cls, candles = drop k' allC,
             allCandles = Some allC, currentPrice = pr\<rparr> p) ! (j - k')"
    using assms(3-5) by (rule analyze_window)
  have in1: "j - k < length allC - k" and in2: "j - k' < length allC - k'"
    using assms by simp_all
  have c: "int k + int (j - k) = int j" and d: "int k' + int (j - k') = int j"
    using assms by simp_all
  show ?thesis
    using r [symmetric] r' [symmetric] in1 in2 w
    by (simp add: analyzeAll_def Let_def a b c d split: sum.splits)
qed

lemma analyzeAll_length:
  "analyzeAll sd p = Inr r \<Longrightarrow> length (candlesWithBB r) = length (candles sd)"
  by (auto simp: analyzeAll_def Let_def split: sum.splits)

lemma analyzeAll_candle:
  "analyzeAll sd p = Inr r \<Longrightarrow> i < length (candles sd) \<Longrightarrow>
     date (candlesWithBB r ! i) = date (candles sd ! i) \<and>
     close (candlesWithBB r ! i) = close (candles sd ! i)"
  by (auto simp: analyzeAll_def analyze_def Let_def split: sum.splits)


text \<open>
  C1 (window-size invariance). Fix the full series \<open>allC\<close>, the closes, the current
  price and the band period, and let the display window be the one that \<open>_parse\<close>
  cuts for 20 and for 50 candles. \<open>analyzeAll\<close> fails for one window exactly when it
  fails for the other (the failure, more closes than candles, does not depend on the
  window). When both succeed, the outputs have one record per candle of their window,
  and for every index \<open>j\<close> of the full series that lies in the 20-candle window (and
  so in both windows) the two outputs hold the same record for candle \<open>j\<close>: the same
  candle fields and the same values of all ten indicator fields.
\<close>

theorem window_size_invariance:
  "(\<forall>e. analyzeAll \<lparr>closes = cls, candles = periodCandles allC 20,
                      allCandles = Some allC, currentPrice = pr\<rparr> p = Inl e
        \<longleftrightarrow> analyzeAll \<lparr>closes = cls, candles = periodCandles allC 50,
                      allCandles = Some allC, currentPrice = pr\<rparr> p = Inl e) \<and>
   (\<forall>r20 r50 j.
        analyzeAll \<lparr>closes = cls, candles = periodCandles allC 20,
                    allCandles = Some allC, currentPrice = pr\<rparr> p = Inr r20 \<and>
        analyzeAll \<lparr>closes = cls, candles = periodCandles allC 50,
                    allCandles = Some allC, currentPrice = pr\<rparr> p = Inr r50 \<and>
        length allC - 20 \<le> j \<and> j < length allC
      \<longrightarrow> length (candlesWithBB r20) = min 20 (length allC) \<and>
          length (candlesWithBB r50) = min 50 (length allC) \<and>
          date (candlesWithBB r20 ! (j - (length allC - 20))) = date (allC ! j) \<and>
          candlesWithBB r20 ! (j - (length allC - 20)) =
            candlesWithBB r50 ! (j - (length allC - 50)))"
proof (intro conjI allI impI)
  fix e
  show "analyzeAll \<lparr>closes = cls, candles = periodCandles allC 20,
                      allCandles = Some allC, currentPrice = pr\<rparr> p = Inl e
        \<longleftrightarrow> analyzeAll \<lparr>closes = cls, candles = periodCandles allC 50,
                      allCandles = Some allC, currentPrice = pr\<rparr> p = Inl e"
    by (simp only: analyzeAll_error)
next
  fix r20 r50 j
  assume h: "analyzeAll \<lparr>closes = cls, candles = periodCandles allC 20,
                    allCandles = Some allC, currentPrice = pr\<rparr> p = Inr r20 \<and>
        analyzeAll \<lparr>closes = cls, candles = periodCandles allC 50,
                    allCandles = Some allC, currentPrice = pr\<rparr> p = Inr r50 \<and>
        length allC - 20 \<le> j \<and> j < length allC"
  have p20: "periodCandles allC 20 = drop (length allC - 20) allC"
    and p50: "periodCandles allC 50 = drop (length allC - 50) allC"
    by (simp_all add: periodCandles_drop)
  from h have a20: "analyzeAll \<lparr>closes = cls, candles = drop (length allC - 20) allC,
                    allCandles = Some allC, currentPrice = pr\<rparr> p = Inr r20"
    and a50: "analyzeAll \<lparr>closes = cls, candles = drop (length allC - 50) allC,
                    allCandles = Some allC, currentPrice = pr\<rparr> p = Inr r50"
    and j: "length allC - 20 \<le> j" "length allC - 50 \<le> j" "j < length allC"
    by (auto simp add: p20 p50)
  show "length (candlesWithBB r20) = min 20 (length allC)"
    using analyzeAll_length [OF a20] by simp
  show "length (candlesWithBB r50) = min 50 (length allC)"
    using analyzeAll_length [OF a50] by simp
  show "date (candlesWithBB r20 ! (j - (length allC - 20))) = date (allC ! j)"
    using analyzeAll_candle [OF a20, of "j - (length allC - 20)"] j by simp
  show "candlesWithBB r20 ! (j - (length allC - 20)) =
            candlesWithBB r50 ! (j - (length allC - 50))"
    using a20 a50 j by (rule analyzeAll_window)
qed

theorem window_size_invariance_witness:
  "\<exists>r20 r50.
     analyzeAll \<lparr>closes = replicate 21 (Fin 100),
        candles = periodCandles (replicate 21 \<lparr>date = ''2024-01-02'', opn = Fin 100,
           high = Fin 101, low = Fin 99, close = Fin 100, volume = Fin 1000\<rparr>) 20,
        allCandles = Some (replicate 21 \<lparr>date = ''2024-01-02'', opn = Fin 100,
           high = Fin 101, low = Fin 99, close = Fin 100, volume = Fin 1000\<rparr>),
        currentPrice = Fin 100\<rparr> 20 = Inr r20 \<and>
     analyzeAll \<lparr>closes = replicate 21 (Fin 100),
        candles = periodCandles (replicate 21 \<lparr>date = ''2024-01-02'', opn = Fin 100,
           high = Fin 101, low = Fin 99, close = Fin 100, volume = Fin 1000\<rparr>) 50,
        allCandles = Some (replicate 21 \<lparr>date = ''2024-01-02'', opn = Fin 100,
           high = Fin 101, low = Fin 99, close = Fin 100, volume = Fin 1000\<rparr>),
        currentPrice = Fin 100\<rparr> 20 = Inr r50 \<and>
     length (candlesWithBB r20) = 20 \<and> length (candlesWithBB r50) = 21 \<and>
     candlesWithBB r20 ! 0 = candlesWithBB r50 ! 1"
proof -
  define c0 where "c0 = \<lparr>date = ''2024-01-02'', opn = Fin 100,
           high = Fin 101, low = Fin 99, close = Fin 100, volume = Fin 1000\<rparr>"
  define a20 where "a20 = analyzeAll \<lparr>closes = replicate 21 (Fin 100),
        candles = periodCandles (replicate 21 c0) 20,
        allCandles = Some (replicate 21 c0), currentPrice = Fin 100\<rparr> 20"
  define a50 where "a50 = analyzeAll \<lparr>closes = replicate 21 (Fin 100),
        candles = periodCandles (replicate 21 c0) 50,
        allCandles = Some (replicate 21 c0), currentPrice = Fin 100\<rparr> 20"
  have "\<not> (\<exists>e. a20 = Inl e)" unfolding a20_def by (simp only: analyzeAll_error) simp
  then obtain r20 where r20: "a20 = Inr r20" by (cases a20) auto
  have "\<not> (\<exists>e. a50 = Inl e)" unfolding a50_def by (simp only: analyzeAll_error) simp
  then obtain r50 where r50: "a50 = Inr r50" by (cases a50) auto
  have "length (candlesWithBB r20) = 20 \<and> length (candlesWithBB r50) = 21 \<and>
     candlesWithBB r20 ! 0 = candlesWithBB r50 ! 1"
    using window_size_invariance [of "replicate 21 (Fin 100)" "replicate 21 c0" "Fin 100" 20]
      r20 r50 unfolding a20_def a50_def
    by (auto dest!: spec [where x = r20] spec [where x = r50] spec [where x = 1])
  with r20 r50 show ?thesis unfolding a20_def a50_def c0_def by blast
qed

section \<open>Cross detection of ease of movement\<close>

lemma eom_nth:
  "i < length cds \<Longrightarrow> eom cds p s ! i =
     \<lparr>eom_val = sma_loop (\<lambda>v. v) (int p) p (eom_raw cds) ! i,
      signal_val = sma_loop (\<lambda>v. v) (int p + int s - 1) s
                     (sma_loop (\<lambda>v. v) (int p) p (eom_raw cds)) ! i,
      crossSignal = eom_cross (sma_loop (\<lambda>v. v) (int p) p (eom_raw cds))
                      (sma_loop (\<lambda>v. v) (int p + int s - 1) s
                         (sma_loop (\<lambda>v. v) (int p) p (eom_raw cds))) i\<rparr>"
  by (simp add: eom_def Let_def)

text \<open>
  C5 (cross priority of \<open>eom\<close>). Each bar carries one \<open>crossSignal\<close>, a signal
  or \<open>null\<close>. A signal at bar \<open>i\<close> needs \<open>i > 0\<close> and non-null \<open>eom\<close> and
  \<open>signal\<close> values at \<open>i\<close> and at \<open>i - 1\<close>. When the four values are there, the
  result is decided in this order: the signal-line cross upward (previous \<open>eom\<close> at
  most the previous signal, current \<open>eom\<close> above the current signal) gives BUY, the
  signal-line cross downward gives SELL, and only if neither holds the zero-line cross
  upward (previous \<open>eom\<close> below 0, current at least 0) gives BUY and the zero-line
  cross downward (previous at least 0, current below 0) gives SELL.
\<close>

theorem eom_cross_priority:
  "i < length cds \<Longrightarrow>
     (crossSignal (eom cds p s ! i) \<noteq> None \<longrightarrow>
        0 < i \<and> eom_val (eom cds p s ! i) \<noteq> None \<and> signal_val (eom cds p s ! i) \<noteq> None \<and>
        eom_val (eom cds p s ! (i - 1)) \<noteq> None \<and> signal_val (eom cds p s ! (i - 1)) \<noteq> None) \<and>
     (\<forall>ep sp e sg.
        0 < i \<and> eom_val (eom cds p s ! (i - 1)) = Some ep \<and>
        signal_val (eom cds p s ! (i - 1)) = Some sp \<and>
        eom_val (eom cds p s ! i) = Some e \<and> signal_val (eom cds p s ! i) = Some sg
        \<longrightarrow> crossSignal (eom cds p s ! i) =
              (if ep \<le> sp \<and> sg < e then Some BUY
               else if sp \<le> ep \<and> e < sg then Some SELL
               else if ep < Fin 0 \<and> Fin 0 \<le> e then Some BUY
               else if Fin 0 \<le> ep \<and> e < Fin 0 then Some SELL
               else None))"
proof -
  assume i: "i < length cds"
  then have j: "i - 1 < length cds" by simp
  show ?thesis
    unfolding eom_nth [OF i] eom_nth [OF j]
    by (auto simp: eom_cross_def split: option.splits if_splits)
qed

text \<open>
  On the example series with period 1 and signal period 3, bar 4 has a signal-line
  cross upward (0 \<le> 0 before, -1 above -11/3 now) and a zero-line cross downward
  (0 before, -1 now) at once: the result is BUY.
\<close>

theorem eom_cross_priority_witness:
  "eom_val (eom cross_example 1 3 ! 3) = Some (Fin 0) \<and>
   signal_val (eom cross_example 1 3 ! 3) = Some (Fin 0) \<and>
   eom_val (eom cross_example 1 3 ! 4) = Some (Fin (- 1)) \<and>
   signal_val (eom cross_example 1 3 ! 4) = Some (Fin (- 11 / 3)) \<and>
   crossSignal (eom cross_example 1 3 ! 4) = Some BUY"
proof -
  have len: "4 < length cross_example" by (simp add: cross_example_def)
  have v: "eom_val (eom cross_example 1 3 ! (4 - 1)) = Some (Fin 0)"
          "signal_val (eom cross_example 1 3 ! (4 - 1)) = Some (Fin 0)"
          "eom_val (eom cross_example 1 3 ! 4) = Some (Fin (- 1))"
          "signal_val (eom cross_example 1 3 ! 4) = Some (Fin (- 11 / 3))"
    by (simp_all add: eom_def cross_example_def eom_raw_def sma_loop_def js_slice_def mean_def Let_def)
  from eom_cross_priority [OF len, of 1 3] v
  have "crossSignal (eom cross_example 1 3 ! 4) = Some BUY" by simp
  with v show ?thesis by simp
qed

section \<open>The signal of \<open>rsiStoch\<close> on the first bar with a slow D\<close>

lemma jmin_PInf [simp]: "jmin PInf (Fin a) = Fin a"
  by (simp add: jmin_def less_eq_jsnum_def)

lemma jmax_NInf [simp]: "jmax NInf (Fin a) = Fin a"
  by (simp add: jmax_def less_eq_jsnum_def)

lemma ex_fastK:
  "stoch_fastK uptrend_example 14 =
     [None, None, None, None, None, None, None, None, None, None, None, None, None,
      Some (Fin (9333 / 100)), Some (Fin (9333 / 100)), Some (Fin (9333 / 100)),
      Some (Fin (9333 / 100)), Some (Fin (8571 / 100))]"
  by (simp add: stoch_fastK_def uptrend_example_def js_slice_def Let_def Math_min_def
        Math_max_def round_dp_def)


lemma ex_stoch:
  "stochastic uptrend_example 14 3 3 = Inr
     [\<lparr>fastK = None, slowK = None, slowD = None\<rparr>,
      \<lparr>fastK = None, slowK = None, slowD = None\<rparr>,
      \<lparr>fastK = None, slowK = None, slowD = None\<rparr>,
      \<lparr>fastK = None, slowK = None, slowD = None\<rparr>,
      \<lparr>fastK = None, slowK = None, slowD = None\<rparr>,
      \<lparr>fastK = None, slowK = None, slowD = None\<rparr>,
      \<lparr>fastK = None, slowK = None, slowD = None\<rparr>,
      \<lparr>fastK = None, slowK = None, slowD = None\<rparr>,
      \<lparr>fastK = None, slowK = None, slowD = None\<rparr>,
      \<lparr>fastK = None, slowK = None, slowD = None\<rparr>,
      \<lparr>fastK = None, slowK = None, slowD = None\<rparr>,
      \<lparr>fastK = None, slowK = None, slowD = None\<rparr>,
      \<lparr>fastK = None, slowK = None, slowD = None\<rparr>,
      \<lparr>fastK = Some (Fin (9333 / 100)), slowK = None, slowD = None\<rparr>,
      \<lparr>fastK = Some (Fin (9333 / 100)), slowK = None, slowD = None\<rparr>,
      \<lparr>fastK = Some (Fin (9333 / 100)), slowK = Some (Fin (9333 / 100)), slowD = None\<rparr>,
      \<lparr>fastK = Some (Fin (9333 / 100)), slowK = Some (Fin (9333 / 100)), slowD = None\<rparr>,
      \<lparr>fastK = Some (Fin (8571 / 100)), slowK = Some (Fin (9079 / 100)),
        slowD = Some (Fin (2312 / 25))\<rparr>]"
proof -
  have len: "length uptrend_example = 18" by (simp add: uptrend_example_def)
  have sK: "sma_loop (toFixed 2) 15 3
     [None, None, None, None, None, None, None, None, None, None, None, None, None,
      Some (Fin (9333 / 100)), Some (Fin (9333 / 100)), Some (Fin (9333 / 100)),
      Some (Fin (9333 / 100)), Some (Fin (8571 / 100))] =
     [None, None, None, None, None, None, None, None, None, None, None, None, None, None, None,
      Some (Fin (9333 / 100)), Some (Fin (9333 / 100)), Some (Fin (9079 / 100))]"
    by (simp add: sma_loop_def js_slice_def Let_def mean_def round_dp_def)
  have sD: "sma_loop (toFixed 2) 17 3
     [None, None, None, None, None, None, None, None, None, None, None, None, None, None, None,
      Some (Fin (9333 / 100)), Some (Fin (9333 / 100)), Some (Fin (9079 / 100))] =
     [None, None, None, None, None, None, None, None, None, None, None, None, None, None, None,
      None, None, Some (Fin (2312 / 25))]"
    by (simp add: sma_loop_def js_slice_def Let_def mean_def round_dp_def)
  have u: "[0 ..< 18] = [0, 1, 2, 3, 4, 5, 6, 7, 8, 9, 10, 11, 12, 13, 14, 15, 16, 17 :: nat]"
    by (simp add: upt_rec)
  show ?thesis
    by (simp add: stochastic_def Let_def ex_fastK sK sD len u)
qed

lemma ex_rsi:
  "rsi (map close uptrend_example) 14 =
     [None, None, None, None, None, None, None, None, None, None, None, None, None, None,
      Some (Fin 100), Some (Fin 100), Some (Fin 100), Some (Fin (4643 / 50))]"
proof -
  have u: "[Suc 0 ..< 15] = [1, 2, 3, 4, 5, 6, 7, 8, 9, 10, 11, 12, 13, 14 :: nat]"
    by (simp add: upt_rec)
  show ?thesis
    by (simp add: rsi_def rsi_init_def rsi_step_def rsi_value_def uptrend_example_def Let_def
        round_dp_def u)
qed


text \<open>
  C4 (signal gating of \<open>rsiStoch\<close>). The claim asks for a \<open>null\<close> signal at every
  bar whose previous \<open>slowD\<close> is \<open>null\<close>. \<open>rsiStoch\<close> tests the previous bar for a
  non-null \<open>slowK\<close> only, and a \<open>null\<close> \<open>slowD\<close> compares as \<open>0\<close>. On the example
  series, with the parameters that \<open>analyzeAll\<close> passes, bar 17 is the first bar with
  a \<open>slowD\<close>; bar 16 has \<open>slowK = 93.33\<close> and \<open>slowD = null\<close>, and bar 17 still
  gets the signal SELL.
\<close>

theorem rsiStoch_signal_without_previous_slowD:
  "\<not> isl (rsiStoch (map close uptrend_example) uptrend_example 14 14 3 3 (Fin 80) (Fin 20)) \<and>
   rs_slowK (projr (rsiStoch (map close uptrend_example) uptrend_example 14 14 3 3
                      (Fin 80) (Fin 20)) ! 16) = Some (Fin (9333 / 100)) \<and>
   rs_slowD (projr (rsiStoch (map close uptrend_example) uptrend_example 14 14 3 3
                      (Fin 80) (Fin 20)) ! 16) = None \<and>
   rs_signal (projr (rsiStoch (map close uptrend_example) uptrend_example 14 14 3 3
                       (Fin 80) (Fin 20)) ! 17) = Some SELL"
  by (simp add: rsiStoch_def Let_def ex_rsi ex_stoch rsist_signal_def)

section \<open>Ordering of the bands\<close>

lemma foldl_plus_Fin:
  "foldl (\<lambda>s v. s + v) (Fin a) (map Fin xs) = Fin (a + sum_list xs)"
  by (induction xs arbitrary: a) (simp_all add: algebra_simps)

lemma mean_Fin: "mean (map Fin xs) = Fin (mean_r xs)"
  by (simp add: mean_def mean_r_def foldl_plus_Fin)

lemma foldl_sq_Fin:
  "foldl (\<lambda>s v. s + (v - Fin m) * (v - Fin m)) (Fin a) (map Fin xs) =
     Fin (a + (\<Sum>v\<leftarrow>xs. (v - m) * (v - m)))"
  by (induction xs arbitrary: a) (simp_all add: algebra_simps)

lemma sum_sq_nonneg: "0 \<le> (\<Sum>v\<leftarrow>xs. (v - m) * (v - (m::real)))"
  by (induction xs) simp_all

lemma stdDev_Fin: "stdDev (map Fin xs) = Fin (stdDev_r xs)"
proof (cases "length xs < 2")
  case True
  then show ?thesis by (simp add: stdDev_def stdDev_r_def)
next
  case False
  then have ne: "real (length xs) \<noteq> 0" by auto
  have nn: "\<not> (\<Sum>v\<leftarrow>xs. (v - mean_r xs) * (v - mean_r xs)) / real (length xs) < 0"
    using sum_sq_nonneg [where xs = xs and m = "mean_r xs"] by (simp add: not_less)
  show ?thesis
    using False ne nn
    by (simp add: stdDev_def stdDev_r_def Let_def mean_Fin foldl_sq_Fin)
qed

lemma stdDev_r_nonneg: "0 \<le> stdDev_r xs"
  using sum_sq_nonneg [where xs = xs and m = "mean_r xs"] by (simp add: stdDev_r_def)

lemma js_slice_map: "js_slice (map f xs) a b = map f (js_slice xs a b)"
  by (simp add: js_slice_def Let_def take_map drop_map)

text \<open>Rounding to decimals is monotone.\<close>

lemma floor_half_cap:
  fixes u :: real
  assumes "0 \<le> u" and "u < 10 ^ 21"
  shows "of_int \<lfloor>u * 10 ^ d + 1 / 2\<rfloor> / 10 ^ d \<le> (10::real) ^ 21"
proof -
  define N :: int where "N = 10 ^ 21 * 10 ^ d"
  have c: "(of_int N :: real) = 10 ^ 21 * 10 ^ d" by (simp add: N_def)
  have h: "u * 10 ^ d < 10 ^ 21 * 10 ^ d" using assms by simp
  have "u * 10 ^ d + 1 / 2 < of_int N + 1"
    unfolding c using h by linarith
  then have "u * 10 ^ d + 1 / 2 < of_int (N + 1)"
    by (simp only: of_int_add of_int_1)
  then have "\<lfloor>u * 10 ^ d + 1 / 2\<rfloor> < N + 1"
    by (simp only: floor_less_iff)
  then have "\<lfloor>u * 10 ^ d + 1 / 2\<rfloor> \<le> N" by linarith
  then have "(of_int \<lfloor>u * 10 ^ d + 1 / 2\<rfloor> :: real) \<le> of_int N"
    by (simp only: of_int_le_iff)
  then show ?thesis unfolding c by (simp add: field_simps)
qed

lemma round_dp_pos: "0 < x \<Longrightarrow> x < 10 ^ 21 \<Longrightarrow>
  round_dp d x = of_int \<lfloor>x * 10 ^ d + 1 / 2\<rfloor> / 10 ^ d"
  by (simp add: round_dp_def)

lemma round_dp_zero [simp]: "round_dp d 0 = 0"
  by (simp add: round_dp_def)

lemma round_dp_big: "10 ^ 21 \<le> \<bar>x\<bar> \<Longrightarrow> round_dp d x = x"
  by (simp add: round_dp_def)

lemma round_dp_nonneg: "0 \<le> x \<Longrightarrow> 0 \<le> round_dp d x"
  by (auto simp: round_dp_def sgn_if)

lemma round_dp_uminus: "round_dp d (- x) = - round_dp d x"
  by (simp add: round_dp_def sgn_if)

lemma round_dp_nonpos: "x \<le> 0 \<Longrightarrow> round_dp d x \<le> 0"
  using round_dp_nonneg [of "- x" d] by (simp add: round_dp_uminus)

lemma round_dp_mono_pos:
  assumes "0 < x" and "x \<le> y"
  shows "round_dp d x \<le> round_dp d y"
proof -
  consider "y < 10 ^ 21" | "x < 10 ^ 21" "10 ^ 21 \<le> y" | "10 ^ 21 \<le> x" by linarith
  then show ?thesis
  proof cases
    case 1
    have "x * 10 ^ d + 1 / 2 \<le> y * 10 ^ d + 1 / 2" using assms by simp
    then have "\<lfloor>x * 10 ^ d + 1 / 2\<rfloor> \<le> \<lfloor>y * 10 ^ d + 1 / 2\<rfloor>" by (rule floor_mono)
    then have "(of_int \<lfloor>x * 10 ^ d + 1 / 2\<rfloor> :: real) \<le> of_int \<lfloor>y * 10 ^ d + 1 / 2\<rfloor>"
      by simp
    then show ?thesis using assms 1 by (simp add: round_dp_pos divide_right_mono)
  next
    case 2
    have "round_dp d x \<le> 10 ^ 21"
      using floor_half_cap [of x d] assms 2 by (simp add: round_dp_pos)
    with 2 show ?thesis by (simp add: round_dp_big)
  next
    case 3
    with assms show ?thesis by (simp add: round_dp_big)
  qed
qed

lemma round_dp_mono:
  assumes "x \<le> y"
  shows "round_dp d x \<le> round_dp d y"
proof -
  consider "0 < x" | "x \<le> 0" "0 \<le> y" | "y < 0" by linarith
  then show ?thesis
  proof cases
    case 1
    then show ?thesis using assms by (rule round_dp_mono_pos)
  next
    case 2
    then show ?thesis using round_dp_nonpos [of x d] round_dp_nonneg [of y d] by linarith
  next
    case 3
    then have "round_dp d (- y) \<le> round_dp d (- x)"
      using assms by (intro round_dp_mono_pos) simp_all
    then show ?thesis by (simp add: round_dp_uminus)
  qed
qed

lemma band_Fin:
  assumes "i < length xs" and "\<not> int i < int period - 1"
  shows "bollingerBands (map Fin xs) period (Fin m) ! i =
     \<lparr>upper = Some (Fin (round_dp 2 (mean_r (js_slice xs (int i - int period + 1) (int i + 1))
               + m * stdDev_r (js_slice xs (int i - int period + 1) (int i + 1))))),
      middle = Some (Fin (round_dp 2 (mean_r (js_slice xs (int i - int period + 1) (int i + 1))))),
      lower = Some (Fin (round_dp 2 (mean_r (js_slice xs (int i - int period + 1) (int i + 1))
               - m * stdDev_r (js_slice xs (int i - int period + 1) (int i + 1)))))\<rparr>"
  using assms
  by (simp add: bollingerBands_nth Let_def js_slice_map mean_Fin stdDev_Fin)

text \<open>
  C2 (band ordering). For closes of absolute value at most \<open>10 ^ 12\<close> and a multiplier
  \<open>m\<close> between 0 and \<open>10 ^ 12\<close>, every entry of \<open>bollingerBands\<close> that is not
  \<open>null\<close> consists of three finite numbers with \<open>lower \<le> middle \<le> upper\<close>. (The
  bound keeps the sums of the window away from the overflow of binary floating
  point, where the band is \<open>Infinity\<close> and \<open>NaN\<close>.) Nothing is said about when the
  three are equal: the bands are rounded to two decimals, and the example after the
  theorem has them equal on a window of non-zero variance.
\<close>

theorem band_ordering:
  assumes "i < length xs" and "\<forall>x \<in> set xs. \<bar>x\<bar> \<le> 10 ^ 12"
    and "0 \<le> m" and "m \<le> 10 ^ 12"
    and "upper (bollingerBands (map Fin xs) period (Fin m) ! i) \<noteq> None
         \<or> middle (bollingerBands (map Fin xs) period (Fin m) ! i) \<noteq> None
         \<or> lower (bollingerBands (map Fin xs) period (Fin m) ! i) \<noteq> None"
  shows "\<exists>u c l.
           bollingerBands (map Fin xs) period (Fin m) ! i =
             \<lparr>upper = Some (Fin u), middle = Some (Fin c), lower = Some (Fin l)\<rparr> \<and>
           l \<le> c \<and> c \<le> u"
proof -
  define w where "w = js_slice xs (int i - int period + 1) (int i + 1)"
  have nn: "\<not> int i < int period - 1"
    using assms(1,5) by (auto simp: bollingerBands_nth split: if_splits)
  have t: "0 \<le> m * stdDev_r w"
    using assms(3) stdDev_r_nonneg [of w] by simp
  have b: "bollingerBands (map Fin xs) period (Fin m) ! i =
     \<lparr>upper = Some (Fin (round_dp 2 (mean_r w + m * stdDev_r w))),
      middle = Some (Fin (round_dp 2 (mean_r w))),
      lower = Some (Fin (round_dp 2 (mean_r w - m * stdDev_r w)))\<rparr>"
    unfolding w_def using assms(1) nn by (rule band_Fin)
  have o1: "round_dp 2 (mean_r w - m * stdDev_r w) \<le> round_dp 2 (mean_r w)"
    using t by (intro round_dp_mono) simp
  have o2: "round_dp 2 (mean_r w) \<le> round_dp 2 (mean_r w + m * stdDev_r w)"
    using t by (intro round_dp_mono) simp
  show ?thesis
    using b o1 o2 by blast
qed

theorem band_ordering_witness:
  "\<exists>u c l. bollingerBands (map Fin [10, 12]) 2 (Fin 2) ! 1 =
       \<lparr>upper = Some (Fin u), middle = Some (Fin c), lower = Some (Fin l)\<rparr> \<and>
     l \<le> c \<and> c \<le> u"
proof -
  have a: "1 < length [10, 12 :: real]" and b: "(0::real) \<le> 2" and b': "(2::real) \<le> 10 ^ 12"
    and r: "\<forall>x \<in> set [10, 12 :: real]. \<bar>x\<bar> \<le> 10 ^ 12" by simp_all
  have c: "upper (bollingerBands (map Fin [10, 12]) 2 (Fin 2) ! 1) \<noteq> None
         \<or> middle (bollingerBands (map Fin [10, 12]) 2 (Fin 2) ! 1) \<noteq> None
         \<or> lower (bollingerBands (map Fin [10, 12]) 2 (Fin 2) ! 1) \<noteq> None"
    by (simp add: bollingerBands_nth Let_def)
  from band_ordering [OF a r b b' c] show ?thesis by blast
qed

text \<open>
  Closes 1 and 1.002 with period 2 and multiplier 2: the deviation of the window is
  0.001, not zero, and the band is 1.00, 1.00, 1.00 after rounding.
\<close>

theorem band_equal_nonzero_variance:
  "bollingerBands [Fin 1, Fin (1002 / 1000)] 2 (Fin 2) ! 1 =
     \<lparr>upper = Some (Fin 1), middle = Some (Fin 1), lower = Some (Fin 1)\<rparr> \<and>
   js_slice [Fin 1, Fin (1002 / 1000)] (int 1 - int 2 + 1) (int 1 + 1) = [Fin 1, Fin (1002 / 1000)] \<and>
   stdDev [Fin 1, Fin (1002 / 1000)] = Fin (1 / 1000) \<and>
   Fin 1 \<noteq> Fin (1002 / 1000)"
proof -
  have sq: "sqrt (1 / 1000000) = 1 / 1000"
    by (rule real_sqrt_unique) (simp_all add: power2_eq_square)
  have sd: "stdDev [Fin 1, Fin (1002 / 1000)] = Fin (1 / 1000)"
    by (simp add: stdDev_def mean_def Let_def sq)
  have sl: "js_slice [Fin 1, Fin (1002 / 1000)] (int 1 - int 2 + 1) (int 1 + 1) = [Fin 1, Fin (1002 / 1000)]"
    by (simp add: js_slice_def)
  have m: "mean [Fin 1, Fin (1002 / 1000)] = Fin (1001 / 1000)"
    by (simp add: mean_def)
  have "bollingerBands [Fin 1, Fin (1002 / 1000)] 2 (Fin 2) ! 1 =
     \<lparr>upper = Some (Fin 1), middle = Some (Fin 1), lower = Some (Fin 1)\<rparr>"
    using sl sd m by (simp add: bollingerBands_def Let_def round_dp_def)
  with sl sd show ?thesis by simp
qed

section \<open>The correlation of finite returns\<close>

lemma is_fin_conv: "is_fin v \<longleftrightarrow> (\<exists>r. v = Fin r)"
  by (cases v) simp_all

lemma Fin_fin_val [simp]: "is_fin v \<Longrightarrow> Fin (fin_val v) = v"
  by (cases v) simp_all

lemma sum_sq_nonneg': "0 \<le> (\<Sum>d\<leftarrow>D. u d * (u d :: real))"
  by (induction D) simp_all

lemma foldl_invariant:
  assumes "P a" and "\<And>a x. x \<in> set xs \<Longrightarrow> P a \<Longrightarrow> P (f a x)"
  shows "P (foldl f a xs)"
  using assms by (induction xs arbitrary: a) simp_all

lemma set_update_subset: "set (AList.update k v al) \<subseteq> insert (k, v) (set al)"
  by (induction al) auto

lemma rateMap_invariant:
  assumes "\<forall>c \<in> set cds. is_fin (close c)"
  shows "distinct (map fst (rateMap cds)) \<and> (\<forall>(k, v) \<in> set (rateMap cds). is_fin v)"
  unfolding rateMap_def
proof (rule foldl_invariant)
  show "distinct (map fst []) \<and> (\<forall>(k, v) \<in> set ([] :: (string \<times> jsnum) list). is_fin v)"
    by simp
next
  fix m :: "(string \<times> jsnum) list" and i
  assume i: "i \<in> set [1 ..< length cds]"
    and inv: "distinct (map fst m) \<and> (\<forall>(k, v) \<in> set m. is_fin v)"
  from i have "i < length cds" and "i - 1 < length cds" by auto
  then have "cds ! i \<in> set cds" and "cds ! (i - 1) \<in> set cds"
    by (simp_all only: nth_mem)
  with assms have "is_fin (close (cds ! i))" and "is_fin (close (cds ! (i - 1)))"
    by blast+
  then obtain c p where c: "close (cds ! i) = Fin c" and p: "close (cds ! (i - 1)) = Fin p"
    unfolding is_fin_conv by blast
  show "distinct (map fst (let prev = close (cds ! (i - 1)); cur = close (cds ! i)
                            in if truthy prev \<and> truthy cur
                               then AList.update (date (cds ! i)) ((cur - prev) / prev) m
                               else m)) \<and>
        (\<forall>(k, v) \<in> set (let prev = close (cds ! (i - 1)); cur = close (cds ! i)
                            in if truthy prev \<and> truthy cur
                               then AList.update (date (cds ! i)) ((cur - prev) / prev) m
                               else m). is_fin v)"
  proof (cases "p \<noteq> 0 \<and> c \<noteq> 0")
    case True
    then have "(Fin c - Fin p) / Fin p = Fin ((c - p) / p)" by simp
    then show ?thesis
      using inv True c p set_update_subset [of "date (cds ! i)" "Fin ((c - p) / p)" m]
      by (auto simp: Let_def AList.distinct_update)
  next
    case False
    then show ?thesis using inv c p by (auto simp: Let_def)
  qed
qed

lemma map_get_fin:
  assumes "\<forall>(k, v) \<in> set m. is_fin v" and "map_of m d \<noteq> None"
  shows "is_fin (map_get m d)"
proof -
  from assms(2) obtain v where v: "map_of m d = Some v" by auto
  then have "(d, v) \<in> set m" by (rule map_of_SomeD)
  with assms(1) have "is_fin v" by auto
  with v show ?thesis by (simp add: map_get_def)
qed

lemma common_dates_fin:
  assumes "\<forall>c \<in> set A. is_fin (close c)" and "\<forall>c \<in> set B. is_fin (close c)"
    and "d \<in> set (common_dates A B)"
  shows "is_fin (map_get (rateMap A) d) \<and> is_fin (map_get (rateMap B) d)"
proof -
  from assms(3) have a: "map_of (rateMap A) d \<noteq> None" and b: "map_of (rateMap B) d \<noteq> None"
    by (auto simp: common_dates_def map_of_eq_None_iff)
  show ?thesis
    using map_get_fin [OF _ a] map_get_fin [OF _ b]
      rateMap_invariant [OF assms(1)] rateMap_invariant [OF assms(2)] by blast
qed


lemma foldl_triple_Fin:
  assumes "k \<le> length xr" and "k \<le> length yr"
  shows "foldl (\<lambda>(num, denX, denY) i.
                  let dx = map Fin xr ! i - Fin mx;
                      dy = map Fin yr ! i - Fin my
                  in (num + dx * dy, denX + dx * dx, denY + dy * dy))
               (Fin a, Fin b, Fin c) [0 ..< k] =
         (Fin (a + (\<Sum>i\<leftarrow>[0 ..< k]. (xr ! i - mx) * (yr ! i - my))),
          Fin (b + (\<Sum>i\<leftarrow>[0 ..< k]. (xr ! i - mx) * (xr ! i - mx))),
          Fin (c + (\<Sum>i\<leftarrow>[0 ..< k]. (yr ! i - my) * (yr ! i - my))))"
  using assms by (induction k) (simp_all add: Let_def algebra_simps)

lemma sum_nth_map2:
  "(\<Sum>i\<leftarrow>[0 ..< length D]. H (map f D ! i) (map g D ! i)) = (\<Sum>d\<leftarrow>D. (H (f d) (g d) :: real))"
proof -
  have "map (\<lambda>i. H (map f D ! i) (map g D ! i)) [0 ..< length D] =
        map (\<lambda>i. H (f (D ! i)) (g (D ! i))) [0 ..< length D]"
    by simp
  also have "\<dots> = map (\<lambda>d. H (f d) (g d)) (map (\<lambda>i. D ! i) [0 ..< length D])"
    by (simp add: comp_def)
  also have "\<dots> = map (\<lambda>d. H (f d) (g d)) D"
    by (simp only: map_nth)
  finally show ?thesis by simp
qed

lemma pearson_fin:
  assumes "\<forall>c \<in> set A. is_fin (close c)" and "\<forall>c \<in> set B. is_fin (close c)"
  shows "pearson A B =
     (if length (common_dates A B) < 5 then None
      else map_option Fin
             (corr_on (common_dates A B) (\<lambda>d. fin_val (map_get (rateMap A) d))
                (\<lambda>d. fin_val (map_get (rateMap B) d))))"
proof (cases "length (common_dates A B) < 5")
  case True
  then show ?thesis by (simp add: pearson_def pearson_sums_def Let_def)
next
  case False
  define D where "D = common_dates A B"
  define f where "f = (\<lambda>d. fin_val (map_get (rateMap A) d))"
  define g where "g = (\<lambda>d. fin_val (map_get (rateMap B) d))"
  define n where "n = real (length D)"
  define mx where "mx = (\<Sum>d\<leftarrow>D. f d) / n"
  define my where "my = (\<Sum>d\<leftarrow>D. g d) / n"
  define num where "num = (\<Sum>d\<leftarrow>D. (f d - mx) * (g d - my))"
  define dX where "dX = (\<Sum>d\<leftarrow>D. (f d - mx) * (f d - mx))"
  define dY where "dY = (\<Sum>d\<leftarrow>D. (g d - my) * (g d - my))"
  have n0: "n \<noteq> 0" using False by (auto simp: n_def D_def)
  have xs: "map (map_get (rateMap A)) D = map Fin (map f D)"
    using common_dates_fin [OF assms] by (simp add: D_def f_def)
  have ys: "map (map_get (rateMap B)) D = map Fin (map g D)"
    using common_dates_fin [OF assms] by (simp add: D_def g_def)
  have meanX: "foldl (\<lambda>s v. s + v) (Fin 0) (map Fin (map f D)) / Fin n = Fin mx"
    using n0 by (simp add: foldl_plus_Fin mx_def del: map_map)
  have meanY: "foldl (\<lambda>s v. s + v) (Fin 0) (map Fin (map g D)) / Fin n = Fin my"
    using n0 by (simp add: foldl_plus_Fin my_def del: map_map)
  have tr: "foldl (\<lambda>(num, denX, denY) i.
                  let dx = map Fin (map f D) ! i - Fin mx;
                      dy = map Fin (map g D) ! i - Fin my
                  in (num + dx * dy, denX + dx * dx, denY + dy * dy))
               (Fin 0, Fin 0, Fin 0) [0 ..< length D] = (Fin num, Fin dX, Fin dY)"
    using foldl_triple_Fin [of "length D" "map f D" "map g D" mx my 0 0 0]
      sum_nth_map2 [of "\<lambda>x y. (x - mx) * (y - my)" f D g]
      sum_nth_map2 [of "\<lambda>x y. (x - mx) * (x - mx)" f D g]
      sum_nth_map2 [of "\<lambda>x y. (y - my) * (y - my)" f D g]
    by (simp add: num_def dX_def dY_def del: map_map)
  have tr': "foldl (\<lambda>(num, denX, denY) i.
                  (num + (map Fin (map f D) ! i - Fin mx) * (map Fin (map g D) ! i - Fin my),
                   denX + (map Fin (map f D) ! i - Fin mx) * (map Fin (map f D) ! i - Fin mx),
                   denY + (map Fin (map g D) ! i - Fin my) * (map Fin (map g D) ! i - Fin my)))
               (Fin 0, Fin 0, Fin 0) [0 ..< length D] = (Fin num, Fin dX, Fin dY)"
    using tr by (simp only: Let_def)
  have nn: "\<not> dX * dY < 0"
    using sum_sq_nonneg' [of "\<lambda>d. f d - mx" D] sum_sq_nonneg' [of "\<lambda>d. g d - my" D]
    by (simp add: dX_def dY_def not_less)
  have c: "corr_on D f g = (if sqrt (dX * dY) = 0 then None else Some (num / sqrt (dX * dY)))"
    by (simp add: corr_on_def Let_def n_def mx_def my_def num_def dX_def dY_def)
  have "pearson A B =
     (if jsqrt (Fin dX * Fin dY) = Fin 0 then None else Some (Fin num / jsqrt (Fin dX * Fin dY)))"
    using False
    by (simp add: pearson_def pearson_sums_def Let_def D_def [symmetric] xs ys
          n_def [symmetric] meanX meanY tr' del: map_map)
  also have "\<dots> = map_option Fin (corr_on D f g)"
    using nn by (simp add: c)
  finally show ?thesis using False by (simp add: D_def f_def g_def)
qed


section \<open>No NaN and no infinity from input of ordinary magnitude\<close>

lemma is_fin_plus [simp]: "is_fin a \<Longrightarrow> is_fin b \<Longrightarrow> is_fin (a + b)"
  by (cases a; cases b) simp_all

lemma is_fin_minus [simp]: "is_fin a \<Longrightarrow> is_fin b \<Longrightarrow> is_fin (a - b)"
  by (cases a; cases b) simp_all

lemma is_fin_times [simp]: "is_fin a \<Longrightarrow> is_fin b \<Longrightarrow> is_fin (a * b)"
  by (cases a; cases b) simp_all

lemma is_fin_divide [simp]: "is_fin a \<Longrightarrow> is_fin b \<Longrightarrow> b \<noteq> Fin 0 \<Longrightarrow> is_fin (a / b)"
  by (cases a; cases b) simp_all

lemma is_fin_abs [simp]: "is_fin a \<Longrightarrow> is_fin \<bar>a\<bar>"
  by (cases a) simp_all

lemma is_fin_toFixed [simp]: "is_fin a \<Longrightarrow> is_fin (toFixed d a)"
  by (cases a) simp_all

lemma is_fin_jmin [simp]: "is_fin a \<Longrightarrow> is_fin b \<Longrightarrow> is_fin (jmin a b)"
  by (cases a; cases b) simp_all

lemma is_fin_jmax [simp]: "is_fin a \<Longrightarrow> is_fin b \<Longrightarrow> is_fin (jmax a b)"
  by (cases a; cases b) simp_all

lemma fin_list: "\<forall>v \<in> set vs. is_fin v \<Longrightarrow> vs = map Fin (map fin_val vs)"
  by (induction vs) simp_all

lemma mean_is_fin: "\<forall>v \<in> set vs. is_fin v \<Longrightarrow> is_fin (mean vs)"
  using mean_Fin [of "map fin_val vs"] fin_list [of vs] by (metis is_fin.simps(1))

lemma stdDev_is_fin: "\<forall>v \<in> set vs. is_fin v \<Longrightarrow> is_fin (stdDev vs)"
  using stdDev_Fin [of "map fin_val vs"] fin_list [of vs] by (metis is_fin.simps(1))

lemma set_js_slice: "set (js_slice xs a b) \<subseteq> set xs"
  unfolding js_slice_def Let_def
  by (meson set_take_subset set_drop_subset subset_trans)

lemma those_Some: "those xs = Some ys \<Longrightarrow> xs = map Some ys"
  by (induction xs arbitrary: ys) (auto split: option.splits)

lemma sma_loop_fin:
  assumes "\<forall>v \<in> set arr. fin_opt v" and "\<And>v. is_fin v \<Longrightarrow> is_fin (post v)"
  shows "\<forall>v \<in> set (sma_loop post start w arr). fin_opt v"
proof -
  have "fin_opt (case those (js_slice arr a b) of None \<Rightarrow> None
                 | Some slice \<Rightarrow> Some (post (mean slice)))" for a b
  proof (cases "those (js_slice arr a b)")
    case None
    then show ?thesis by simp
  next
    case (Some vs)
    then have "js_slice arr a b = map Some vs" by (rule those_Some)
    then have "Some ` set vs \<subseteq> set arr" using set_js_slice [of arr a b] by auto
    then have "\<forall>v \<in> set vs. is_fin v" using assms(1) by fastforce
    then have "is_fin (post (mean vs))" by (intro assms(2) mean_is_fin)
    with Some show ?thesis by simp
  qed
  then show ?thesis by (auto simp: sma_loop_def)
qed

lemma length_eom_raw [simp]: "length (eom_raw cds) = length cds"
  by (simp add: eom_raw_def)

lemma eom_raw_fin:
  assumes "\<forall>c \<in> set cds. fin_candle c"
  shows "\<forall>v \<in> set (eom_raw cds). fin_opt v"
  unfolding all_set_conv_all_nth
proof (intro allI impI)
  fix i
  assume "i < length (eom_raw cds)"
  then have i: "i < length cds" by simp
  then have "cds ! i \<in> set cds" and "cds ! (i - 1) \<in> set cds" by auto
  with assms have "fin_candle (cds ! i)" and "fin_candle (cds ! (i - 1))" by blast+
  then show "fin_opt (eom_raw cds ! i)"
    using i by (auto simp: eom_raw_def fin_candle_def Let_def)
qed

lemma eom_fin:
  assumes "\<forall>c \<in> set cds. fin_candle c"
  shows "\<forall>p \<in> set (eom cds ep es). fin_opt (eom_val p) \<and> fin_opt (signal_val p)"
proof -
  have a: "\<forall>v \<in> set (sma_loop (\<lambda>v. v) (int ep) ep (eom_raw cds)). fin_opt v"
    using eom_raw_fin [OF assms] by (rule sma_loop_fin) simp
  then have b: "\<forall>v \<in> set (sma_loop (\<lambda>v. v) (int ep + int es - 1) es
                    (sma_loop (\<lambda>v. v) (int ep) ep (eom_raw cds))). fin_opt v"
    by (rule sma_loop_fin) simp
  show ?thesis
    using a b unfolding all_set_conv_all_nth by (simp add: eom_nth)
qed


lemma bollingerBands_fin:
  assumes "\<forall>v \<in> set cls. is_fin v" and "is_fin m"
  shows "\<forall>b \<in> set (bollingerBands cls period m).
           fin_opt (upper b) \<and> fin_opt (middle b) \<and> fin_opt (lower b)"
  unfolding all_set_conv_all_nth
proof (intro allI impI)
  fix i
  assume "i < length (bollingerBands cls period m)"
  then have i: "i < length cls" by simp
  define w where "w = js_slice cls (int i - int period + 1) (int i + 1)"
  have "\<forall>v \<in> set w. is_fin v"
    using assms(1) set_js_slice [of cls] unfolding w_def by blast
  then have "is_fin (mean w)" and "is_fin (stdDev w)"
    by (simp_all add: mean_is_fin stdDev_is_fin)
  then show "fin_opt (upper (bollingerBands cls period m ! i)) \<and>
             fin_opt (middle (bollingerBands cls period m ! i)) \<and>
             fin_opt (lower (bollingerBands cls period m ! i))"
    using i assms(2) by (simp add: bollingerBands_nth Let_def w_def [symmetric])
qed

lemma latestBB_fin:
  assumes "\<forall>v \<in> set cls. is_fin v" and "is_fin m"
  shows "case latestBB cls period m of None \<Rightarrow> True
         | Some b \<Rightarrow> fin_opt (upper b) \<and> fin_opt (middle b) \<and> fin_opt (lower b)"
proof (cases "length cls < period")
  case True
  then show ?thesis
    using assms by (simp add: latestBB_def Let_def mean_is_fin stdDev_is_fin)
next
  case False
  then have "latestBB cls period m =
     (if cls = [] then None else Some (last (bollingerBands cls period m)))"
    by (simp add: latestBB_full)
  moreover have "cls \<noteq> [] \<Longrightarrow> last (bollingerBands cls period m) \<in> set (bollingerBands cls period m)"
    by (intro last_in_set) (simp add: bollingerBands_def)
  ultimately show ?thesis
    using bollingerBands_fin [OF assms, of period] by auto
qed

lemma bbRatio_fin:
  assumes "is_fin price" and "is_fin up" and "is_fin lo"
  shows "is_fin (bbRatio price up lo)"
proof -
  obtain p u l where "price = Fin p" "up = Fin u" "lo = Fin l"
    using assms unfolding is_fin_conv by blast
  then show ?thesis by (simp add: bbRatio_def Let_def)
qed

lemma alertLevel_ratio: "ratio (alertLevel price up mid lo) = bbRatio price up lo"
  by (simp add: alertLevel_def Let_def)

lemma Math_min_fin:
  assumes "vs \<noteq> []" and "\<forall>v \<in> set vs. is_fin v"
  shows "is_fin (Math_min vs)"
proof -
  have "is_fin a \<Longrightarrow> \<forall>v \<in> set xs. is_fin v \<Longrightarrow> is_fin (foldl jmin a xs)" for a xs
    by (induction xs arbitrary: a) simp_all
  moreover obtain x xs where "vs = x # xs" using assms(1) by (cases vs) auto
  moreover have "is_fin x \<Longrightarrow> jmin PInf x = x" for x by (cases x) simp_all
  ultimately show ?thesis using assms(2) by (simp add: Math_min_def)
qed

lemma Math_max_fin:
  assumes "vs \<noteq> []" and "\<forall>v \<in> set vs. is_fin v"
  shows "is_fin (Math_max vs)"
proof -
  have "is_fin a \<Longrightarrow> \<forall>v \<in> set xs. is_fin v \<Longrightarrow> is_fin (foldl jmax a xs)" for a xs
    by (induction xs arbitrary: a) simp_all
  moreover obtain x xs where "vs = x # xs" using assms(1) by (cases vs) auto
  moreover have "is_fin x \<Longrightarrow> jmax NInf x = x" for x by (cases x) simp_all
  ultimately show ?thesis using assms(2) by (simp add: Math_max_def)
qed

lemma js_slice_window_nonempty:
  assumes "i < length xs" and "1 \<le> k" and "int k - 1 \<le> int i"
  shows "js_slice xs (int i - int k + 1) (int i + 1) \<noteq> []"
  using assms by (auto simp: js_slice_def Let_def min_def)

lemma length_stoch_fastK [simp]: "length (stoch_fastK cds k1) = length cds"
  by (simp add: stoch_fastK_def)

lemma stoch_fastK_fin:
  assumes "\<forall>c \<in> set cds. fin_candle c" and "1 \<le> k1"
  shows "\<forall>v \<in> set (stoch_fastK cds k1). fin_opt v"
  unfolding all_set_conv_all_nth
proof (intro allI impI)
  fix i
  assume "i < length (stoch_fastK cds k1)"
  then have i: "i < length cds" by simp
  show "fin_opt (stoch_fastK cds k1 ! i)"
  proof (cases "int i < int k1 - 1")
    case True
    then show ?thesis using i by (simp add: stoch_fastK_def)
  next
    case False
    define w where "w = js_slice cds (int i - int k1 + 1) (int i + 1)"
    have ne: "w \<noteq> []"
      unfolding w_def using i assms(2) False by (intro js_slice_window_nonempty) simp_all
    have fw: "\<forall>c \<in> set w. fin_candle c"
      using assms(1) set_js_slice [of cds] unfolding w_def by blast
    have lo: "is_fin (Math_min (map low w))"
      using ne fw by (intro Math_min_fin) (auto simp: fin_candle_def)
    have hi: "is_fin (Math_max (map high w))"
      using ne fw by (intro Math_max_fin) (auto simp: fin_candle_def)
    have c: "is_fin (close (cds ! i))"
      using assms(1) i by (auto simp: fin_candle_def)
    show ?thesis
      using i False lo hi c by (simp add: stoch_fastK_def Let_def w_def [symmetric])
  qed
qed

lemma stochastic_nth:
  "0 < k1 \<Longrightarrow> i < length cds \<Longrightarrow> projr (stochastic cds k1 k2 d) ! i =
     \<lparr>fastK = stoch_fastK cds k1 ! i,
      slowK = sma_loop (toFixed 2) (int k1 + int k2 - 2) k2 (stoch_fastK cds k1) ! i,
      slowD = sma_loop (toFixed 2) (int k1 + int k2 + int d - 3) d
                (sma_loop (toFixed 2) (int k1 + int k2 - 2) k2 (stoch_fastK cds k1)) ! i\<rparr>"
  by (simp add: stochastic_def Let_def)

lemma stochastic_fin:
  assumes "\<forall>c \<in> set cds. fin_candle c" and "1 \<le> k1"
  shows "\<forall>p \<in> set (projr (stochastic cds k1 k2 d)).
           fin_opt (fastK p) \<and> fin_opt (slowK p) \<and> fin_opt (slowD p)"
proof -
  have k: "0 < k1" using assms(2) by simp
  have a: "\<forall>v \<in> set (stoch_fastK cds k1). fin_opt v"
    using assms by (rule stoch_fastK_fin)
  then have b: "\<forall>v \<in> set (sma_loop (toFixed 2) (int k1 + int k2 - 2) k2 (stoch_fastK cds k1)).
                  fin_opt v"
    by (rule sma_loop_fin) simp
  then have c: "\<forall>v \<in> set (sma_loop (toFixed 2) (int k1 + int k2 + int d - 3) d
                (sma_loop (toFixed 2) (int k1 + int k2 - 2) k2 (stoch_fastK cds k1))). fin_opt v"
    by (rule sma_loop_fin) simp
  show ?thesis
    using a b c k unfolding all_set_conv_all_nth by (simp add: stochastic_nth)
qed


lemma rsi_value_fin: "0 \<le> g \<Longrightarrow> 0 \<le> l \<Longrightarrow> is_fin (rsi_value (Fin g) (Fin l))"
proof -
  assume g: "0 \<le> g" and l: "0 \<le> l"
  then have "0 \<le> g / l" by simp
  then have "1 + g / l \<noteq> 0" by linarith
  then show ?thesis by (simp add: rsi_value_def)
qed

lemma rsi_init_fin:
  assumes "\<forall>v \<in> set cls. is_fin v" and "period < length cls"
  shows "\<exists>g l. rsi_init cls period = (Fin g, Fin l) \<and> 0 \<le> g \<and> 0 \<le> l"
  unfolding rsi_init_def
proof (rule foldl_invariant [where P = "\<lambda>st. \<exists>g l. st = (Fin g, Fin l) \<and> 0 \<le> g \<and> 0 \<le> l"])
  show "\<exists>g l. (Fin 0, Fin 0) = (Fin g, Fin l) \<and> 0 \<le> g \<and> 0 \<le> l" by simp
next
  fix st :: "jsnum \<times> jsnum" and i
  assume i: "i \<in> set [1 ..< period + 1]"
    and "\<exists>g l. st = (Fin g, Fin l) \<and> 0 \<le> g \<and> 0 \<le> l"
  then obtain g l where st: "st = (Fin g, Fin l)" and g: "0 \<le> g" and l: "0 \<le> l" by blast
  from i assms(2) have "i < length cls" and "i - 1 < length cls" by auto
  then have "cls ! i \<in> set cls" and "cls ! (i - 1) \<in> set cls" by (simp_all only: nth_mem)
  with assms(1) have "is_fin (cls ! i)" and "is_fin (cls ! (i - 1))" by blast+
  then obtain a b where a: "cls ! i = Fin a" and b: "cls ! (i - 1) = Fin b"
    unfolding is_fin_conv by blast
  show "\<exists>g l. (case st of (avgGain, avgLoss) \<Rightarrow> \<lambda>i.
                 let diff = cls ! i - cls ! (i - 1)
                 in if Fin 0 < diff then (avgGain + diff, avgLoss)
                    else (avgGain, avgLoss + \<bar>diff\<bar>)) i = (Fin g, Fin l) \<and> 0 \<le> g \<and> 0 \<le> l"
    using st g l a b by (simp add: Let_def)
qed

lemma set_list_update_fin:
  "\<forall>v \<in> set out. fin_opt v \<Longrightarrow> fin_opt x \<Longrightarrow> \<forall>v \<in> set (out[i := x]). fin_opt v"
  using set_update_subset_insert [of out i x] by blast

lemma rsi_step_fin:
  assumes "\<forall>v \<in> set cls. is_fin v" and "1 \<le> period" and "i < length cls"
    and "0 \<le> g" and "0 \<le> l" and "\<forall>v \<in> set out. fin_opt v"
  shows "\<exists>g' l' out'. rsi_step cls period (Fin g, Fin l, out) i = (Fin g', Fin l', out') \<and>
           0 \<le> g' \<and> 0 \<le> l' \<and> (\<forall>v \<in> set out'. fin_opt v)"
proof -
  from assms(3) have "cls ! i \<in> set cls" and "cls ! (i - 1) \<in> set cls" by auto
  with assms(1) have "is_fin (cls ! i)" and "is_fin (cls ! (i - 1))" by blast+
  then obtain a b where a: "cls ! i = Fin a" and b: "cls ! (i - 1) = Fin b"
    unfolding is_fin_conv by blast
  define gain where "gain = (if 0 < a - b then a - b else 0)"
  define loss where "loss = (if a - b < 0 then \<bar>a - b\<bar> else 0)"
  define g' where "g' = (g * (real period - 1) + gain) / real period"
  define l' where "l' = (l * (real period - 1) + loss) / real period"
  have p: "real period \<noteq> 0" and p1: "0 \<le> real period - 1" using assms(2) by simp_all
  have "0 \<le> gain" and "0 \<le> loss" by (simp_all add: gain_def loss_def)
  then have g': "0 \<le> g'" and l': "0 \<le> l'"
    using assms(4,5) p1 by (simp_all add: g'_def l'_def)
  have step: "rsi_step cls period (Fin g, Fin l, out) i =
                (Fin g', Fin l', out[i := Some (rsi_value (Fin g') (Fin l'))])"
    using p a b by (simp add: rsi_step_def Let_def gain_def loss_def g'_def l'_def)
  have "\<forall>v \<in> set (out[i := Some (rsi_value (Fin g') (Fin l'))]). fin_opt v"
    using assms(6) rsi_value_fin [OF g' l'] by (intro set_list_update_fin) simp_all
  with step g' l' show ?thesis by blast
qed

lemma rsi_fin:
  assumes "\<forall>v \<in> set cls. is_fin v" and "1 \<le> period"
  shows "\<forall>v \<in> set (rsi cls period). fin_opt v"
proof (cases "length cls < period + 1")
  case True
  then show ?thesis by (simp add: rsi_def Let_def)
next
  case False
  then have pl: "period < length cls" by simp
  obtain g l where gl: "rsi_init cls period = (Fin g, Fin l)" and g: "0 \<le> g" and l: "0 \<le> l"
    using rsi_init_fin [OF assms(1) pl] by blast
  have p: "real period \<noteq> 0" using assms(2) by simp
  define g0 where "g0 = g / real period"
  define l0 where "l0 = l / real period"
  have g0: "0 \<le> g0" and l0: "0 \<le> l0" using g l by (simp_all add: g0_def l0_def)
  define out1 where "out1 = (replicate (length cls) None)[period := Some (rsi_value (Fin g0) (Fin l0))]"
  have o1: "\<forall>v \<in> set out1. fin_opt v"
    unfolding out1_def using rsi_value_fin [OF g0 l0] by (intro set_list_update_fin) simp_all
  have r: "rsi cls period =
             snd (snd (foldl (rsi_step cls period) (Fin g0, Fin l0, out1) [period + 1 ..< length cls]))"
    using False gl p by (simp add: rsi_def Let_def g0_def l0_def out1_def)
  have "\<exists>g' l' out'. foldl (rsi_step cls period) (Fin g0, Fin l0, out1) [period + 1 ..< length cls]
            = (Fin g', Fin l', out') \<and> 0 \<le> g' \<and> 0 \<le> l' \<and> (\<forall>v \<in> set out'. fin_opt v)"
  proof (rule foldl_invariant [where P = "\<lambda>st. \<exists>g' l' out'. st = (Fin g', Fin l', out') \<and>
            0 \<le> g' \<and> 0 \<le> l' \<and> (\<forall>v \<in> set out'. fin_opt v)"])
    show "\<exists>g' l' out'. (Fin g0, Fin l0, out1) = (Fin g', Fin l', out') \<and>
            0 \<le> g' \<and> 0 \<le> l' \<and> (\<forall>v \<in> set out'. fin_opt v)"
      using g0 l0 o1 by blast
  next
    fix st :: "jsnum \<times> jsnum \<times> jsnum option list" and i
    assume i: "i \<in> set [period + 1 ..< length cls]"
      and "\<exists>g' l' out'. st = (Fin g', Fin l', out') \<and>
            0 \<le> g' \<and> 0 \<le> l' \<and> (\<forall>v \<in> set out'. fin_opt v)"
    then obtain a b out where st: "st = (Fin a, Fin b, out)" and "0 \<le> a" and "0 \<le> b"
      and "\<forall>v \<in> set out. fin_opt v" by blast
    moreover from i have "i < length cls" by simp
    ultimately show "\<exists>g' l' out'. rsi_step cls period st i = (Fin g', Fin l', out') \<and>
            0 \<le> g' \<and> 0 \<le> l' \<and> (\<forall>v \<in> set out'. fin_opt v)"
      unfolding st using assms by (intro rsi_step_fin) simp_all
  qed
  then show ?thesis unfolding r by auto
qed


lemma pearson_fin_opt:
  assumes "\<forall>c \<in> set A. is_fin (close c)" and "\<forall>c \<in> set B. is_fin (close c)"
  shows "fin_opt (pearson A B)"
  unfolding pearson_fin [OF assms]
  by (cases "corr_on (common_dates A B) (\<lambda>d. fin_val (map_get (rateMap A) d))
               (\<lambda>d. fin_val (map_get (rateMap B) d))") simp_all

lemma rsiStoch_fin:
  assumes "\<forall>v \<in> set cls. is_fin v" and "\<forall>c \<in> set cds. fin_candle c"
    and "1 \<le> rp" and "1 \<le> k1"
    and "rsiStoch cls cds rp k1 k2 d ob os = Inr rs"
  shows "\<forall>p \<in> set rs. fin_opt (rs_rsi p) \<and> fin_opt (rs_slowK p) \<and> fin_opt (rs_slowD p)"
proof -
  have k: "0 < k1" using assms(4) by simp
  have len: "length cls \<le> length cds"
    and rs: "rs = map (\<lambda>i. \<lparr>rs_rsi = rsi cls rp ! i,
                           rs_slowK = slowK (projr (stochastic cds k1 k2 d) ! i),
                           rs_slowD = slowD (projr (stochastic cds k1 k2 d) ! i),
                           rs_signal = rsist_signal (rsi cls rp)
                                         (projr (stochastic cds k1 k2 d)) ob os i\<rparr>)
                    [0 ..< length cls]"
    using assms(5) by (auto simp: rsiStoch_cases split: if_splits)
  have a: "\<forall>i < length cls. fin_opt (rsi cls rp ! i)"
    using rsi_fin [OF assms(1,3)] unfolding all_set_conv_all_nth by simp
  have b: "\<forall>i < length cds. fin_opt (slowK (projr (stochastic cds k1 k2 d) ! i)) \<and>
                              fin_opt (slowD (projr (stochastic cds k1 k2 d) ! i))"
    using stochastic_fin [OF assms(2,4), of k2 d] k unfolding all_set_conv_all_nth by simp
  show ?thesis
    unfolding rs all_set_conv_all_nth using a b len by simp
qed

lemma js_index_mem: "js_index xs i = Some x \<Longrightarrow> x \<in> set xs"
  by (auto simp: js_index_def split: if_splits)

lemma analyze_fin:
  assumes "\<forall>v \<in> set (closes sd). is_fin v" and "is_fin (currentPrice sd)"
  shows "is_fin (bbRatio_val (analyze sd p)) \<and> is_fin (ratio (alert_val (analyze sd p))) \<and>
         (case bb (analyze sd p) of None \<Rightarrow> True
          | Some b \<Rightarrow> fin_opt (upper b) \<and> fin_opt (middle b) \<and> fin_opt (lower b)) \<and>
         (\<forall>c \<in> set (candlesWithBB (analyze sd p)).
            fin_opt (bbUpper c) \<and> fin_opt (bbMiddle c) \<and> fin_opt (bbLower c))"
proof -
  have f2: "is_fin (Fin 2)" by simp
  have bands: "\<forall>b \<in> set (bollingerBands (closes sd) p (Fin 2)).
           fin_opt (upper b) \<and> fin_opt (middle b) \<and> fin_opt (lower b)"
    using assms(1) f2 by (rule bollingerBands_fin)
  have bar: "fin_opt (case js_index (bollingerBands (closes sd) p (Fin 2)) bi of
                         None \<Rightarrow> None | Some b \<Rightarrow> upper b) \<and>
             fin_opt (case js_index (bollingerBands (closes sd) p (Fin 2)) bi of
                         None \<Rightarrow> None | Some b \<Rightarrow> middle b) \<and>
             fin_opt (case js_index (bollingerBands (closes sd) p (Fin 2)) bi of
                         None \<Rightarrow> None | Some b \<Rightarrow> lower b)" for bi
    using bands by (auto split: option.splits dest: js_index_mem)
  have lat: "case latestBB (closes sd) p (Fin 2) of None \<Rightarrow> True
         | Some b \<Rightarrow> fin_opt (upper b) \<and> fin_opt (middle b) \<and> fin_opt (lower b)"
    using assms(1) f2 by (rule latestBB_fin)
  have num: "fin_opt v \<Longrightarrow> is_fin (num_of v)" for v by (cases v) simp_all
  have al: "is_fin (ratio (case latestBB (closes sd) p (Fin 2) of
                  Some b \<Rightarrow> alertLevel (currentPrice sd) (num_of (upper b))
                              (num_of (middle b)) (num_of (lower b))
                | None \<Rightarrow> \<lparr>level = 0, label = [0x2D, 0x2D], stars = [],
                            ratio = Fin (1 / 2)\<rparr>))"
    using lat assms(2) by (auto split: option.splits simp: alertLevel_ratio intro!: bbRatio_fin num)
  show ?thesis
    using al lat bar by (simp add: analyze_def Let_def)
qed

lemma analyzeAll_fin:
  assumes "\<forall>v \<in> set (closes sd). is_fin v" and "is_fin (currentPrice sd)"
    and "\<forall>c \<in> set (case allCandles sd of Some a \<Rightarrow> a | None \<Rightarrow> candles sd). fin_candle c"
    and "analyzeAll sd p = Inr r"
  shows "is_fin (bbRatio_val r) \<and> is_fin (ratio (alert_val r)) \<and>
         (case bb r of None \<Rightarrow> True
          | Some b \<Rightarrow> fin_opt (upper b) \<and> fin_opt (middle b) \<and> fin_opt (lower b)) \<and>
         (\<forall>c \<in> set (candlesWithBB r).
            fin_opt (bbUpper c) \<and> fin_opt (bbMiddle c) \<and> fin_opt (bbLower c) \<and>
            fin_opt (eom_v c) \<and> fin_opt (eomSignal c) \<and> fin_opt (rsi_v c) \<and>
            fin_opt (slowK_v c) \<and> fin_opt (slowD_v c))"
proof -
  define allC where "allC = (case allCandles sd of Some a \<Rightarrow> a | None \<Rightarrow> candles sd)"
  obtain rs where rs: "rsiStoch (closes sd) allC 14 14 3 3 (Fin 80) (Fin 20) = Inr rs"
    using assms(4) by (auto simp: analyzeAll_def Let_def allC_def split: sum.splits)
  have fc: "\<forall>c \<in> set allC. fin_candle c" using assms(3) by (simp add: allC_def)
  have frs: "\<forall>p \<in> set rs. fin_opt (rs_rsi p) \<and> fin_opt (rs_slowK p) \<and> fin_opt (rs_slowD p)"
    using assms(1) fc _ _ rs by (rule rsiStoch_fin) simp_all
  have fe: "\<forall>p \<in> set (eom allC 14 14). fin_opt (eom_val p) \<and> fin_opt (signal_val p)"
    using fc by (rule eom_fin)
  have e: "fin_opt (case js_index (eom allC 14 14) bi of None \<Rightarrow> None | Some p \<Rightarrow> eom_val p) \<and>
           fin_opt (case js_index (eom allC 14 14) bi of None \<Rightarrow> None | Some p \<Rightarrow> signal_val p)"
    for bi using fe by (auto split: option.splits dest: js_index_mem)
  have s: "fin_opt (case js_index rs bi of None \<Rightarrow> None | Some p \<Rightarrow> rs_rsi p) \<and>
           fin_opt (case js_index rs bi of None \<Rightarrow> None | Some p \<Rightarrow> rs_slowK p) \<and>
           fin_opt (case js_index rs bi of None \<Rightarrow> None | Some p \<Rightarrow> rs_slowD p)"
    for bi using frs by (auto split: option.splits dest: js_index_mem)
  have base: "is_fin (bbRatio_val (analyze sd p)) \<and> is_fin (ratio (alert_val (analyze sd p))) \<and>
         (case bb (analyze sd p) of None \<Rightarrow> True
          | Some b \<Rightarrow> fin_opt (upper b) \<and> fin_opt (middle b) \<and> fin_opt (lower b)) \<and>
         (\<forall>i < length (candles sd).
            fin_opt (bbUpper (candlesWithBB (analyze sd p) ! i)) \<and>
            fin_opt (bbMiddle (candlesWithBB (analyze sd p) ! i)) \<and>
            fin_opt (bbLower (candlesWithBB (analyze sd p) ! i)))"
    using analyze_fin [OF assms(1,2), of p] unfolding all_set_conv_all_nth by simp
  show ?thesis
    using assms(4) [symmetric] rs base e s
    unfolding all_set_conv_all_nth
    by (simp add: analyzeAll_def Let_def allC_def [symmetric])
qed

lemma fastK_flat:
  assumes "0 < k1" and "i < length cds" and "int k1 - 1 \<le> int i"
    and "Math_max (map high (js_slice cds (int i - int k1 + 1) (int i + 1)))
           - Math_min (map low (js_slice cds (int i - int k1 + 1) (int i + 1))) = Fin 0"
  shows "fastK (projr (stochastic cds k1 k2 d) ! i) = Some (Fin 50)"
  using assms by (simp add: stochastic_nth stoch_fastK_def Let_def)

lemma bbRatio_flat: "up - lo \<le> Fin 0 \<Longrightarrow> bbRatio price up lo = Fin (1 / 2)"
  by (simp add: bbRatio_def Let_def)

lemma fin_candle_close: "\<forall>c \<in> set cds. fin_candle c \<Longrightarrow> \<forall>c \<in> set cds. is_fin (close c)"
  by (simp add: fin_candle_def)

lemma plain_num_fin: "plain_num v \<Longrightarrow> is_fin v"
  by (cases v) simp_all

lemma plain_candle_fin: "plain_candle c \<Longrightarrow> fin_candle c"
  unfolding plain_candle_def fin_candle_def
  by (cases "high c"; cases "low c"; cases "close c"; cases "volume c") simp_all

lemma stochastic_Inr:
  "0 < k1 \<Longrightarrow> stochastic cds k1 k2 d = Inr (projr (stochastic cds k1 k2 d))"
  by (simp add: stochastic_def Let_def)

lemma pearson_den_zero:
  "pearson_sums A B = Some (num, denX, denY) \<Longrightarrow> jsqrt (denX * denY) = Fin 0 \<Longrightarrow>
     pearson A B = None"
  by (simp add: pearson_def)

text \<open>
  C8 (division-by-zero safety). Take input of ordinary magnitude: closes, prices,
  band values and multiplier of absolute value at most \<open>10 ^ 12\<close>, and candles with
  high, low and close between \<open>10 ^ -6\<close> and \<open>10 ^ 12\<close> and a volume that is 0 or
  between 1 and \<open>10 ^ 15\<close>; take a period of at least 1 for \<open>rsi\<close> and a window \<open>k1\<close>
  of at least 1 for \<open>stochastic\<close>. Then \<open>stochastic\<close> does not throw, every number
  that a core function returns is finite, and every nullable number is \<open>null\<close> or
  finite: \<open>mean\<close>, \<open>stdDev\<close>, \<open>bollingerBands\<close>, \<open>latestBB\<close>, \<open>bbRatio\<close>,
  \<open>alertLevel\<close>, \<open>eom\<close>, \<open>rsi\<close>, \<open>stochastic\<close>, \<open>rsiStoch\<close>, \<open>pearson\<close> and the
  records of \<open>analyzeAll\<close>. In particular the fast K is exactly 50 at every index
  whose trailing window has range 0 (highest high minus lowest low), \<open>pearson\<close> is
  \<open>null\<close> when the denominator that it computes from its sums is 0, and \<open>bbRatio\<close>
  is \<open>0.5\<close> when \<open>upper - lower \<le> 0\<close>.
\<close>

theorem no_nan_or_infinity:
  assumes "\<forall>v \<in> set cls. plain_num v" and "plain_num m" and "plain_num price"
    and "plain_num up" and "plain_num mid" and "plain_num lo"
    and "\<forall>c \<in> set cds. plain_candle c" and "\<forall>c \<in> set cds'. plain_candle c"
    and "1 \<le> period" and "1 \<le> k1"
  shows "is_fin (mean cls) \<and> is_fin (stdDev cls) \<and>
     (\<forall>b \<in> set (bollingerBands cls bp m).
         fin_opt (upper b) \<and> fin_opt (middle b) \<and> fin_opt (lower b)) \<and>
     (case latestBB cls bp m of None \<Rightarrow> True
      | Some b \<Rightarrow> fin_opt (upper b) \<and> fin_opt (middle b) \<and> fin_opt (lower b)) \<and>
     is_fin (bbRatio price up lo) \<and> is_fin (ratio (alertLevel price up mid lo)) \<and>
     (\<forall>p \<in> set (eom cds ep es). fin_opt (eom_val p) \<and> fin_opt (signal_val p)) \<and>
     (\<forall>v \<in> set (rsi cls period). fin_opt v) \<and>
     (\<exists>ps. stochastic cds k1 k2 d = Inr ps \<and>
         (\<forall>p \<in> set ps. fin_opt (fastK p) \<and> fin_opt (slowK p) \<and> fin_opt (slowD p))) \<and>
     (\<forall>rs. rsiStoch cls cds period k1 k2 d ob os = Inr rs \<longrightarrow>
         (\<forall>p \<in> set rs. fin_opt (rs_rsi p) \<and> fin_opt (rs_slowK p) \<and> fin_opt (rs_slowD p))) \<and>
     fin_opt (pearson cds cds') \<and>
     (\<forall>r. analyzeAll \<lparr>closes = cls, candles = cds', allCandles = Some cds,
                       currentPrice = price\<rparr> bp = Inr r \<longrightarrow>
         is_fin (bbRatio_val r) \<and> is_fin (ratio (alert_val r)) \<and>
         (case bb r of None \<Rightarrow> True
          | Some b \<Rightarrow> fin_opt (upper b) \<and> fin_opt (middle b) \<and> fin_opt (lower b)) \<and>
         (\<forall>c \<in> set (candlesWithBB r).
            fin_opt (bbUpper c) \<and> fin_opt (bbMiddle c) \<and> fin_opt (bbLower c) \<and>
            fin_opt (eom_v c) \<and> fin_opt (eomSignal c) \<and> fin_opt (rsi_v c) \<and>
            fin_opt (slowK_v c) \<and> fin_opt (slowD_v c))) \<and>
     (\<forall>i < length cds. int k1 - 1 \<le> int i \<and>
         Math_max (map high (js_slice cds (int i - int k1 + 1) (int i + 1)))
           - Math_min (map low (js_slice cds (int i - int k1 + 1) (int i + 1))) = Fin 0
         \<longrightarrow> fastK (projr (stochastic cds k1 k2 d) ! i) = Some (Fin 50)) \<and>
     (\<forall>num denX denY. pearson_sums cds cds' = Some (num, denX, denY) \<and>
         jsqrt (denX * denY) = Fin 0 \<longrightarrow> pearson cds cds' = None) \<and>
     (up - lo \<le> Fin 0 \<longrightarrow> bbRatio price up lo = Fin (1 / 2))"
proof -
  have fcls: "\<forall>v \<in> set cls. is_fin v" using assms(1) plain_num_fin by blast
  have fm: "is_fin m" and fprice: "is_fin price" and fup: "is_fin up" and flo: "is_fin lo"
    using assms(2,3,4,6) by (simp_all add: plain_num_fin)
  have fcds: "\<forall>c \<in> set cds. fin_candle c" using assms(7) plain_candle_fin by blast
  have fcds': "\<forall>c \<in> set cds'. fin_candle c" using assms(8) plain_candle_fin by blast
  have k: "0 < k1" using assms(10) by simp
  note ca = fin_candle_close [OF fcds] and cb = fin_candle_close [OF fcds']
  have 1: "is_fin (mean cls) \<and> is_fin (stdDev cls)"
    using fcls by (simp add: mean_is_fin stdDev_is_fin)
  have 2: "\<forall>b \<in> set (bollingerBands cls bp m).
         fin_opt (upper b) \<and> fin_opt (middle b) \<and> fin_opt (lower b)"
    using fcls fm by (rule bollingerBands_fin)
  have 3: "case latestBB cls bp m of None \<Rightarrow> True
      | Some b \<Rightarrow> fin_opt (upper b) \<and> fin_opt (middle b) \<and> fin_opt (lower b)"
    using fcls fm by (rule latestBB_fin)
  have 4: "is_fin (bbRatio price up lo) \<and> is_fin (ratio (alertLevel price up mid lo))"
    using fprice fup flo by (simp add: alertLevel_ratio bbRatio_fin)
  have 5: "\<forall>p \<in> set (eom cds ep es). fin_opt (eom_val p) \<and> fin_opt (signal_val p)"
    using fcds by (rule eom_fin)
  have 6: "\<forall>v \<in> set (rsi cls period). fin_opt v"
    using fcls assms(9) by (rule rsi_fin)
  have 7: "\<exists>ps. stochastic cds k1 k2 d = Inr ps \<and>
         (\<forall>p \<in> set ps. fin_opt (fastK p) \<and> fin_opt (slowK p) \<and> fin_opt (slowD p))"
    using stochastic_Inr [OF k] stochastic_fin [OF fcds assms(10)] by blast
  have 8: "\<forall>rs. rsiStoch cls cds period k1 k2 d ob os = Inr rs \<longrightarrow>
         (\<forall>p \<in> set rs. fin_opt (rs_rsi p) \<and> fin_opt (rs_slowK p) \<and> fin_opt (rs_slowD p))"
    using rsiStoch_fin [OF fcls fcds assms(9,10)] by blast
  have 9: "fin_opt (pearson cds cds')"
    using ca cb by (rule pearson_fin_opt)
  have 10: "\<forall>r. analyzeAll \<lparr>closes = cls, candles = cds', allCandles = Some cds,
                       currentPrice = price\<rparr> bp = Inr r \<longrightarrow>
         is_fin (bbRatio_val r) \<and> is_fin (ratio (alert_val r)) \<and>
         (case bb r of None \<Rightarrow> True
          | Some b \<Rightarrow> fin_opt (upper b) \<and> fin_opt (middle b) \<and> fin_opt (lower b)) \<and>
         (\<forall>c \<in> set (candlesWithBB r).
            fin_opt (bbUpper c) \<and> fin_opt (bbMiddle c) \<and> fin_opt (bbLower c) \<and>
            fin_opt (eom_v c) \<and> fin_opt (eomSignal c) \<and> fin_opt (rsi_v c) \<and>
            fin_opt (slowK_v c) \<and> fin_opt (slowD_v c))"
  proof (intro allI impI)
    fix r
    assume "analyzeAll \<lparr>closes = cls, candles = cds', allCandles = Some cds,
                       currentPrice = price\<rparr> bp = Inr r"
    then show "is_fin (bbRatio_val r) \<and> is_fin (ratio (alert_val r)) \<and>
         (case bb r of None \<Rightarrow> True
          | Some b \<Rightarrow> fin_opt (upper b) \<and> fin_opt (middle b) \<and> fin_opt (lower b)) \<and>
         (\<forall>c \<in> set (candlesWithBB r).
            fin_opt (bbUpper c) \<and> fin_opt (bbMiddle c) \<and> fin_opt (bbLower c) \<and>
            fin_opt (eom_v c) \<and> fin_opt (eomSignal c) \<and> fin_opt (rsi_v c) \<and>
            fin_opt (slowK_v c) \<and> fin_opt (slowD_v c))"
      using fcls fprice fcds by (intro analyzeAll_fin [where p = bp]) simp_all
  qed
  have 11: "\<forall>i < length cds. int k1 - 1 \<le> int i \<and>
         Math_max (map high (js_slice cds (int i - int k1 + 1) (int i + 1)))
           - Math_min (map low (js_slice cds (int i - int k1 + 1) (int i + 1))) = Fin 0
         \<longrightarrow> fastK (projr (stochastic cds k1 k2 d) ! i) = Some (Fin 50)"
    using fastK_flat [OF k] by blast
  have 12: "\<forall>num denX denY. pearson_sums cds cds' = Some (num, denX, denY) \<and>
         jsqrt (denX * denY) = Fin 0 \<longrightarrow> pearson cds cds' = None"
    using pearson_den_zero by blast
  have 13: "up - lo \<le> Fin 0 \<longrightarrow> bbRatio price up lo = Fin (1 / 2)"
    using bbRatio_flat by blast
  show ?thesis
    by (intro conjI conjunct1 [OF 1] conjunct2 [OF 1] 2 3 conjunct1 [OF 4] conjunct2 [OF 4]
          5 6 7 8 9 10 11 12 13)
qed

theorem no_nan_or_infinity_witness:
  "is_fin (mean (map close uptrend_example)) \<and> is_fin (stdDev (map close uptrend_example)) \<and>
   is_fin (bbRatio (Fin 95) (Fin 110) (Fin 90)) \<and>
   is_fin (ratio (alertLevel (Fin 95) (Fin 110) (Fin 100) (Fin 90))) \<and>
   fin_opt (pearson uptrend_example cross_example)"
proof -
  have a: "\<forall>v \<in> set (map close uptrend_example). plain_num v"
    by (simp add: uptrend_example_def)
  have b: "\<forall>c \<in> set uptrend_example. plain_candle c"
    by (simp add: uptrend_example_def plain_candle_def)
  have c: "\<forall>c \<in> set cross_example. plain_candle c"
    by (simp add: cross_example_def plain_candle_def)
  have d: "plain_num (Fin 2)" "plain_num (Fin 95)" "plain_num (Fin 110)" "plain_num (Fin 100)"
    "plain_num (Fin 90)"
    by simp_all
  have e: "(1::nat) \<le> 14" by simp
  from no_nan_or_infinity [OF a d b c e e, of 20 14 14 3 3 "Fin 80" "Fin 20"]
  show ?thesis by blast
qed

text \<open>
  With period 0 the initial averages of \<open>rsi\<close> are \<open>0 / 0\<close>: on the one close 5 the
  function returns \<open>NaN\<close>.
\<close>

theorem rsi_period_zero: "rsi [Fin 5] 0 = [Some NaN]"
  by (simp add: rsi_def rsi_init_def rsi_value_def Let_def minus_jsnum_def)

section \<open>The correlation coefficient on binary64 numbers\<close>

lemma find_binade:
  assumes "lo \<le> e" and "e \<le> hi" and "2 powi e \<le> \<bar>x :: real\<bar>" and "\<bar>x\<bar> < 2 powi (e + 1)"
  shows "List.find (\<lambda>e. \<bar>x\<bar> < 2 powi (e + 1)) [lo .. hi] = Some e"
proof -
  have mem: "e \<in> set [lo .. hi]" using assms(1,2) by simp
  then have "List.find (\<lambda>e. \<bar>x\<bar> < 2 powi (e + 1)) [lo .. hi] \<noteq> None"
    using assms(4) by (auto simp: find_None_iff)
  then obtain e' where f: "List.find (\<lambda>e. \<bar>x\<bar> < 2 powi (e + 1)) [lo .. hi] = Some e'"
    by auto
  then obtain i where i: "i < length [lo .. hi]" "\<bar>x\<bar> < 2 powi ([lo .. hi] ! i + 1)"
      "e' = [lo .. hi] ! i" "\<forall>j < i. \<not> \<bar>x\<bar> < 2 powi ([lo .. hi] ! j + 1)"
    unfolding find_Some_iff by blast
  have e'le: "e' \<le> e"
  proof (rule ccontr)
    assume "\<not> e' \<le> e"
    then have lt: "e < e'" by simp
    define j where "j = nat (e - lo)"
    have "e' = lo + int i" using i(1,3) by simp
    then have "j < i" using lt assms(1) by (simp add: j_def)
    moreover have "[lo .. hi] ! j = e" using assms(1,2) by (simp add: j_def)
    ultimately show False using i(4) assms(4) by auto
  qed
  have "e \<le> e'"
  proof (rule ccontr)
    assume "\<not> e \<le> e'"
    then have "e' + 1 \<le> e" by simp
    then have "(2::real) powi (e' + 1) \<le> 2 powi e" by (intro power_int_increasing) simp_all
    then show False using i(2,3) assms(3) by simp
  qed
  with e'le f show ?thesis by simp
qed

lemma binade_eqI:
  assumes "- 1022 \<le> e" and "e \<le> 1023" and "2 powi e \<le> \<bar>x\<bar>" and "\<bar>x\<bar> < 2 powi (e + 1)"
  shows "binade x = e"
  unfolding binade_def by (simp only: find_binade [OF assms] option.case)

lemma rne_unique:
  assumes "\<bar>t - of_int n\<bar> < 1 / 2"
  shows "rne t = n"
proof -
  have lo: "of_int n - 1 / 2 < t" and hi: "t < of_int n + 1 / 2"
    using assms by linarith+
  show ?thesis
  proof (cases "of_int n \<le> t")
    case True
    have "\<lfloor>t\<rfloor> = n" using True hi by (intro floor_unique) linarith+
    moreover have "t - of_int n < 1 / 2" using hi by linarith
    ultimately show ?thesis by (simp add: rne_def Let_def)
  next
    case False
    have "of_int (n - 1) \<le> t" and "t < of_int (n - 1) + 1" using False lo by simp_all
    then have f: "\<lfloor>t\<rfloor> = n - 1" by (rule floor_unique)
    have "1 / 2 < t - of_int (n - 1)" using lo by simp
    then show ?thesis unfolding rne_def Let_def f by simp
  qed
qed

lemma rne_bounds:
  assumes "of_int a \<le> t" and "t \<le> of_int b"
  shows "a \<le> rne t \<and> rne t \<le> b"
proof -
  have fa: "a \<le> \<lfloor>t\<rfloor>" using assms(1) by (simp add: le_floor_iff)
  have fb: "\<lfloor>t\<rfloor> \<le> b" using assms(2) by (simp add: floor_le_iff)
  have c: "rne t = \<lfloor>t\<rfloor> \<or> (rne t = \<lfloor>t\<rfloor> + 1 \<and> of_int \<lfloor>t\<rfloor> < t)"
    by (auto simp: rne_def Let_def)
  have "\<lfloor>t\<rfloor> + 1 \<le> b" if "of_int \<lfloor>t\<rfloor> < t"
  proof -
    have "of_int \<lfloor>t\<rfloor> < (of_int b :: real)" using that assms(2) by linarith
    then have "\<lfloor>t\<rfloor> < b" by simp
    then show ?thesis by simp
  qed
  with c fa fb show ?thesis by auto
qed

text \<open>
  The rounding of a number whose binade is known: with \<open>2 ^ 52 \<le> \<bar>x\<bar> * 2 ^ k < 2 ^ 53\<close>
  the grid is that of the multiples of \<open>1 / 2 ^ k\<close>.
\<close>

lemma round64_eval:
  assumes "2 ^ 52 \<le> \<bar>x\<bar> * 2 ^ k" and "\<bar>x\<bar> * 2 ^ k < 2 ^ 53" and "k \<le> 1074"
    and "rne (x * 2 ^ k) = n"
  shows "round64 x = Fin (of_int n / 2 ^ k)"
proof -
  have p: "(2::real) powi (52 - int k) = 2 ^ 52 / 2 ^ k"
    by (simp add: power_int_diff)
  have p1: "(2::real) powi (52 - int k + 1) = 2 ^ 53 / 2 ^ k"
    by (simp add: power_int_diff power_int_add)
  have b1: "2 powi (52 - int k) \<le> \<bar>x\<bar>"
    unfolding p using assms(1) by (simp add: pos_divide_le_eq)
  have b2: "\<bar>x\<bar> < 2 powi (52 - int k + 1)"
    unfolding p1 using assms(2) by (simp add: pos_less_divide_eq)
  have e: "binade x = 52 - int k"
    using _ _ b1 b2 by (rule binade_eqI) (use assms(3) in simp_all)
  have q: "(2::real) powi (binade x - 52) = 1 / 2 ^ k"
    unfolding e by (simp add: power_int_minus field_simps)
  define M :: int where "M = 2 ^ 53"
  have M: "real_of_int M = 2 ^ 53" by (simp add: M_def)
  have nb: "\<bar>real_of_int n\<bar> \<le> 2 ^ 53"
  proof -
    have "\<bar>x * 2 ^ k\<bar> < 2 ^ 53" using assms(2) by (simp add: abs_mult)
    then have "of_int (- M) \<le> x * 2 ^ k" "x * 2 ^ k \<le> of_int M"
      unfolding of_int_minus M by linarith+
    then have "- M \<le> rne (x * 2 ^ k) \<and> rne (x * 2 ^ k) \<le> M" by (rule rne_bounds)
    then have "- M \<le> n" "n \<le> M" using assms(4) by simp_all
    then have "real_of_int (- M) \<le> real_of_int n" "real_of_int n \<le> real_of_int M"
      by (simp_all only: of_int_le_iff)
    then show ?thesis unfolding of_int_minus M by linarith
  qed
  have "\<bar>real_of_int n / 2 ^ k\<bar> \<le> 2 ^ 53"
  proof -
    have "(1::real) \<le> 2 ^ k" by simp
    then have "\<bar>real_of_int n\<bar> / 2 ^ k \<le> \<bar>real_of_int n\<bar> / 1"
      by (intro divide_left_mono) simp_all
    then show ?thesis using nb by simp
  qed
  moreover have "(2::real) ^ 53 < 2 ^ 1024" by simp
  ultimately have small: "\<not> 2 ^ 1024 \<le> \<bar>real_of_int n / 2 ^ k\<bar>" by linarith
  show ?thesis
    using small assms(4) by (simp add: round64_def Let_def q)
qed

lemma round64_zero [simp]: "round64 0 = Fin 0"
  by (simp add: round64_def rne_def)

text \<open>The correctly rounded square root, found by comparing squares.\<close>

lemma round64_sqrt_eval:
  assumes "2 ^ 104 \<le> p * 4 ^ k" and "p * 4 ^ k < 2 ^ 106" and "k \<le> 1074"
    and "(of_int n - 1 / 2) * (of_int n - 1 / 2) < p * 4 ^ k"
    and "p * 4 ^ k < (of_int n + 1 / 2) * (of_int n + 1 / 2)" and "0 < n"
  shows "round64 (sqrt p) = Fin (of_int n / 2 ^ k)"
proof -
  define t where "t = sqrt p * 2 ^ k"
  have s4: "sqrt (4 ^ k) = (2::real) ^ k"
    by (rule real_sqrt_unique) (simp_all add: power2_eq_square flip: power_mult_distrib)
  have t: "t = sqrt (p * 4 ^ k)" by (simp add: t_def real_sqrt_mult s4)
  have "sqrt (2 ^ 104) \<le> t" unfolding t using assms(1) by (simp only: real_sqrt_le_iff)
  moreover have "sqrt (2 ^ 104) = (2::real) ^ 52"
    by (rule real_sqrt_unique) (simp_all add: power2_eq_square)
  ultimately have lo: "2 ^ 52 \<le> t" by simp
  have "t < sqrt (2 ^ 106)" unfolding t using assms(2) by (simp only: real_sqrt_less_iff)
  moreover have "sqrt (2 ^ 106) = (2::real) ^ 53"
    by (rule real_sqrt_unique) (simp_all add: power2_eq_square)
  ultimately have hi: "t < 2 ^ 53" by simp
  have n1: "(1::real) \<le> of_int n" using assms(6) by simp
  have a: "sqrt ((of_int n - 1 / 2) * (of_int n - 1 / 2)) < t"
    unfolding t using assms(4) by (simp only: real_sqrt_less_iff)
  have b: "t < sqrt ((of_int n + 1 / 2) * (of_int n + 1 / 2))"
    unfolding t using assms(5) by (simp only: real_sqrt_less_iff)
  have a': "sqrt ((of_int n - 1 / 2) * (of_int n - 1 / 2)) = of_int n - 1 / 2"
    using n1 by (intro real_sqrt_unique) (simp_all add: power2_eq_square)
  have b': "sqrt ((of_int n + 1 / 2) * (of_int n + 1 / 2)) = of_int n + 1 / 2"
    using n1 by (intro real_sqrt_unique) (simp_all add: power2_eq_square)
  have "\<bar>t - of_int n\<bar> < 1 / 2" using a b unfolding a' b' by linarith
  then have r: "rne (sqrt p * 2 ^ k) = n" unfolding t_def by (rule rne_unique)
  have "(0::real) < 2 ^ 52" by simp
  then have "0 < sqrt p * 2 ^ k" using lo unfolding t_def by linarith
  then have "0 < sqrt p" by (simp add: zero_less_mult_iff)
  then have ab: "\<bar>sqrt p\<bar> = sqrt p" by simp
  show ?thesis
  proof (rule round64_eval)
    show "2 ^ 52 \<le> \<bar>sqrt p\<bar> * 2 ^ k" unfolding ab using lo by (simp only: t_def)
    show "\<bar>sqrt p\<bar> * 2 ^ k < 2 ^ 53" unfolding ab using hi by (simp only: t_def)
    show "k \<le> 1074" by (rule assms(3))
    show "rne (sqrt p * 2 ^ k) = n" by (rule r)
  qed
qed









text \<open>
  Two series over the same seven dates, one listing them forward and one backward: the
  five common dates come out in opposite orders, the sums are added up in opposite
  orders, and the two calls differ in the last digit (-0.1564537960202134 and
  -0.15645379602021336).
\<close>

lemma forward_example_bars:
  "forward_example =
     [\<lparr>date = ''2024-01-02'', opn = Fin (8), high = Fin (8), low = Fin (8),
        close = Fin (8), volume = Fin 0\<rparr>,
      \<lparr>date = ''2024-01-03'', opn = Fin (9), high = Fin (9), low = Fin (9),
        close = Fin (9), volume = Fin 0\<rparr>,
      \<lparr>date = ''2024-01-04'', opn = Fin (8), high = Fin (8), low = Fin (8),
        close = Fin (8), volume = Fin 0\<rparr>,
      \<lparr>date = ''2024-01-05'', opn = Fin (8), high = Fin (8), low = Fin (8),
        close = Fin (8), volume = Fin 0\<rparr>,
      \<lparr>date = ''2024-01-08'', opn = Fin (9), high = Fin (9), low = Fin (9),
        close = Fin (9), volume = Fin 0\<rparr>,
      \<lparr>date = ''2024-01-09'', opn = Fin (4), high = Fin (4), low = Fin (4),
        close = Fin (4), volume = Fin 0\<rparr>,
      \<lparr>date = ''2024-01-10'', opn = Fin (3), high = Fin (3), low = Fin (3),
        close = Fin (3), volume = Fin 0\<rparr>]"
proof -
  have l0: "round64 (8) = Fin (8)"
    by (simp add: round64_eval [where k = 49 and n = 4503599627370496] rne_def)
  have l1: "round64 (9) = Fin (9)"
    by (simp add: round64_eval [where k = 49 and n = 5066549580791808] rne_def)
  have l2: "round64 (4) = Fin (4)"
    by (simp add: round64_eval [where k = 50 and n = 4503599627370496] rne_def)
  have l3: "round64 (3) = Fin (3)"
    by (simp add: round64_eval [where k = 51 and n = 6755399441055744] rne_def)
  show ?thesis
    using l0 l1 l2 l3
    by (simp add: forward_example_def flat_bar_def)
qed

lemma backward_example_bars:
  "backward_example =
     [\<lparr>date = ''2024-01-10'', opn = Fin (9), high = Fin (9), low = Fin (9),
        close = Fin (9), volume = Fin 0\<rparr>,
      \<lparr>date = ''2024-01-09'', opn = Fin (8), high = Fin (8), low = Fin (8),
        close = Fin (8), volume = Fin 0\<rparr>,
      \<lparr>date = ''2024-01-08'', opn = Fin (3), high = Fin (3), low = Fin (3),
        close = Fin (3), volume = Fin 0\<rparr>,
      \<lparr>date = ''2024-01-05'', opn = Fin (2), high = Fin (2), low = Fin (2),
        close = Fin (2), volume = Fin 0\<rparr>,
      \<lparr>date = ''2024-01-04'', opn = Fin (8), high = Fin (8), low = Fin (8),
        close = Fin (8), volume = Fin 0\<rparr>,
      \<lparr>date = ''2024-01-03'', opn = Fin (5), high = Fin (5), low = Fin (5),
        close = Fin (5), volume = Fin 0\<rparr>,
      \<lparr>date = ''2024-01-02'', opn = Fin (3), high = Fin (3), low = Fin (3),
        close = Fin (3), volume = Fin 0\<rparr>]"
proof -
  have l0: "round64 (9) = Fin (9)"
    by (simp add: round64_eval [where k = 49 and n = 5066549580791808] rne_def)
  have l1: "round64 (8) = Fin (8)"
    by (simp add: round64_eval [where k = 49 and n = 4503599627370496] rne_def)
  have l2: "round64 (3) = Fin (3)"
    by (simp add: round64_eval [where k = 51 and n = 6755399441055744] rne_def)
  have l3: "round64 (2) = Fin (2)"
    by (simp add: round64_eval [where k = 51 and n = 4503599627370496] rne_def)
  have l4: "round64 (5) = Fin (5)"
    by (simp add: round64_eval [where k = 50 and n = 5629499534213120] rne_def)
  show ?thesis
    using l0 l1 l2 l3 l4
    by (simp add: backward_example_def flat_bar_def)
qed

lemma pearson64_argument_order:
  "pearson64 forward_example backward_example = Some (Fin (- (5636842059658661 / 36028797018963968))) \<and>
   pearson64 backward_example forward_example = Some (Fin (- (1409210514914665 / 9007199254740992))) \<and>
   pearson64 forward_example backward_example \<noteq> pearson64 backward_example forward_example"
proof -
  have f0: "round64 (8) = Fin (8)"
    by (simp add: round64_eval [where k = 49 and n = 4503599627370496] rne_def)
  have f1: "round64 (9) = Fin (9)"
    by (simp add: round64_eval [where k = 49 and n = 5066549580791808] rne_def)
  have f2: "round64 (1) = Fin (1)"
    by (simp add: round64_eval [where k = 52 and n = 4503599627370496] rne_def)
  have f3: "round64 (1 / 8) = Fin (1 / 8)"
    by (simp add: round64_eval [where k = 55 and n = 4503599627370496] rne_def)
  have f4: "round64 (- 1) = Fin (- 1)"
    by (simp add: round64_eval [where k = 52 and n = "- 4503599627370496"] rne_def)
  have f5: "round64 (- (1 / 9)) = Fin (- (2001599834386887 / 18014398509481984))"
    by (simp add: round64_eval [where k = 56 and n = "- 8006399337547548"] rne_def)
  have f6: "round64 (4) = Fin (4)"
    by (simp add: round64_eval [where k = 50 and n = 4503599627370496] rne_def)
  have f7: "round64 (- 5) = Fin (- 5)"
    by (simp add: round64_eval [where k = 50 and n = "- 5629499534213120"] rne_def)
  have f8: "round64 (- (5 / 9)) = Fin (- (2501999792983609 / 4503599627370496))"
    by (simp add: round64_eval [where k = 53 and n = "- 5003999585967218"] rne_def)
  have f9: "round64 (3) = Fin (3)"
    by (simp add: round64_eval [where k = 51 and n = 6755399441055744] rne_def)
  have f10: "round64 (- (1 / 4)) = Fin (- (1 / 4))"
    by (simp add: round64_eval [where k = 54 and n = "- 4503599627370496"] rne_def)
  have f11: "round64 (- (5 / 8)) = Fin (- (5 / 8))"
    by (simp add: round64_eval [where k = 53 and n = "- 5629499534213120"] rne_def)
  have f12: "round64 (2) = Fin (2)"
    by (simp add: round64_eval [where k = 51 and n = 4503599627370496] rne_def)
  have f13: "round64 (- (1 / 3)) = Fin (- (6004799503160661 / 18014398509481984))"
    by (simp add: round64_eval [where k = 54 and n = "- 6004799503160661"] rne_def)
  have f14: "round64 (6) = Fin (6)"
    by (simp add: round64_eval [where k = 50 and n = 6755399441055744] rne_def)
  have f15: "round64 (5) = Fin (5)"
    by (simp add: round64_eval [where k = 50 and n = 5629499534213120] rne_def)
  have f16: "round64 (- 3) = Fin (- 3)"
    by (simp add: round64_eval [where k = 51 and n = "- 6755399441055744"] rne_def)
  have f17: "round64 (- (3 / 8)) = Fin (- (3 / 8))"
    by (simp add: round64_eval [where k = 54 and n = "- 6755399441055744"] rne_def)
  have f18: "round64 (- 2) = Fin (- 2)"
    by (simp add: round64_eval [where k = 51 and n = "- 4503599627370496"] rne_def)
  have f19: "round64 (- (2 / 5)) = Fin (- (3602879701896397 / 9007199254740992))"
    by (simp add: round64_eval [where k = 54 and n = "- 7205759403792794"] rne_def)
  have f20: "round64 (250199979298361 / 18014398509481984) = Fin (250199979298361 / 18014398509481984)"
    by (simp add: round64_eval [where k = 59 and n = 8006399337547552] rne_def)
  have f21: "round64 (2501999792983609 / 18014398509481984) = Fin (2501999792983609 / 18014398509481984)"
    by (simp add: round64_eval [where k = 55 and n = 5003999585967218] rne_def)
  have f22: "round64 (- (7505999378950827 / 18014398509481984)) = Fin (- (7505999378950827 / 18014398509481984))"
    by (simp add: round64_eval [where k = 54 and n = "- 7505999378950827"] rne_def)
  have f23: "round64 (- (7505999378950827 / 90071992547409920)) = Fin (- (3002399751580331 / 36028797018963968))"
    by (simp add: round64_eval [where k = 56 and n = "- 6004799503160662"] rne_def)
  have f24: "round64 (21 / 8) = Fin (21 / 8)"
    by (simp add: round64_eval [where k = 51 and n = 5910974510923776] rne_def)
  have f25: "round64 (41282996584229547 / 18014398509481984) = Fin (5160374573028693 / 2251799813685248)"
    by (simp add: round64_eval [where k = 51 and n = 5160374573028693] rne_def)
  have f26: "round64 (3752999689475413 / 2251799813685248) = Fin (3752999689475413 / 2251799813685248)"
    by (simp add: round64_eval [where k = 52 and n = 7505999378950826] rne_def)
  have f27: "round64 (28022397681416417 / 18014398509481984) = Fin (875699927544263 / 562949953421312)"
    by (simp add: round64_eval [where k = 52 and n = 7005599420354104] rne_def)
  have f28: "round64 (875699927544263 / 2814749767106560) = Fin (5604479536283283 / 18014398509481984)"
    by (simp add: round64_eval [where k = 54 and n = 5604479536283283] rne_def)
  have f29: "round64 (7505999378950827 / 36028797018963968) = Fin (7505999378950827 / 36028797018963968)"
    by (simp add: round64_eval [where k = 55 and n = 7505999378950827] rne_def)
  have f30: "round64 (- (12359878977339027 / 18014398509481984)) = Fin (- (3089969744334757 / 4503599627370496))"
    by (simp add: round64_eval [where k = 53 and n = "- 6179939488669514"] rne_def)
  have f31: "round64 (- (23193310981953531727877729994039 / 162259276829213363391578010288128)) = Fin (- (2574974786945631 / 18014398509481984))"
    by (simp add: round64_eval [where k = 55 and n = "- 5149949573891262"] rne_def)
  have f32: "round64 (- (2574974786945631 / 18014398509481984)) = Fin (- (2574974786945631 / 18014398509481984))"
    by (simp add: round64_eval [where k = 55 and n = "- 5149949573891262"] rne_def)
  have f33: "round64 (56340026676810200626075283983929 / 1298074214633706907132624082305024) = Fin (6254999482459023 / 144115188075855872)"
    by (simp add: round64_eval [where k = 57 and n = 6254999482459023] rne_def)
  have f34: "round64 (6254999482459023 / 144115188075855872) = Fin (6254999482459023 / 144115188075855872)"
    by (simp add: round64_eval [where k = 57 and n = 6254999482459023] rne_def)
  have f35: "round64 (9547913020904203539296478249049 / 20282409603651670423947251286016) = Fin (530015643646309 / 1125899906842624)"
    by (simp add: round64_eval [where k = 54 and n = 8480250298340944] rne_def)
  have f36: "round64 (530015643646309 / 1125899906842624) = Fin (530015643646309 / 1125899906842624)"
    by (simp add: round64_eval [where k = 54 and n = 8480250298340944] rne_def)
  have f37: "round64 (- (1000799917193443 / 36028797018963968)) = Fin (- (1000799917193443 / 36028797018963968))"
    by (simp add: round64_eval [where k = 58 and n = "- 8006399337547544"] rne_def)
  have f38: "round64 (48438715992162669 / 18014398509481984) = Fin (3027419749510167 / 1125899906842624)"
    by (simp add: round64_eval [where k = 51 and n = 6054839499020334] rne_def)
  have f39: "round64 (- (3029841434619569082860634234981 / 40564819207303340847894502572032)) = Fin (- (2691039777342369 / 36028797018963968))"
    by (simp add: round64_eval [where k = 56 and n = "- 5382079554684738"] rne_def)
  have f40: "round64 (- (7840989351233631 / 36028797018963968)) = Fin (- (7840989351233631 / 36028797018963968))"
    by (simp add: round64_eval [where k = 55 and n = "- 7840989351233631"] rne_def)
  have f41: "round64 (1001600474254402365725882194249 / 1298074214633706907132624082305024) = Fin (889599926394171 / 1152921504606846976)"
    by (simp add: round64_eval [where k = 63 and n = 7116799411153368] rne_def)
  have f42: "round64 (50929595786066355 / 1152921504606846976) = Fin (3183099736629147 / 72057594037927936)"
    by (simp add: round64_eval [where k = 57 and n = 6366199473258294] rne_def)
  have f43: "round64 (9165270339724202303436436367889 / 1267650600228229401496703205376) = Fin (31798419243987 / 4398046511104)"
    by (simp add: round64_eval [where k = 50 and n = 8140395326460672] rne_def)
  have f44: "round64 (8670410970106981 / 1125899906842624) = Fin (8670410970106981 / 1125899906842624)"
    by (simp add: round64_eval [where k = 50 and n = 8670410970106981] rne_def)
  have f45: "round64 (3002399751580331 / 36028797018963968) = Fin (3002399751580331 / 36028797018963968)"
    by (simp add: round64_eval [where k = 56 and n = 6004799503160662] rne_def)
  have f46: "round64 (- (1451159879930493 / 2251799813685248)) = Fin (- (1451159879930493 / 2251799813685248))"
    by (simp add: round64_eval [where k = 53 and n = "- 5804639519721972"] rne_def)
  have f47: "round64 (- (4356962063006655144787185933183 / 81129638414606681695789005144064)) = Fin (- (7739519359629297 / 144115188075855872))"
    by (simp add: round64_eval [where k = 57 and n = "- 7739519359629297"] rne_def)
  have f48: "round64 (- (39103476764563821 / 144115188075855872)) = Fin (- (2443967297785239 / 9007199254740992))"
    by (simp add: round64_eval [where k = 54 and n = "- 4887934595570478"] rne_def)
  have f49: "round64 (9014404268289633301131946069561 / 1298074214633706907132624082305024) = Fin (4003199668773775 / 576460752303423488)"
    by (simp add: round64_eval [where k = 60 and n = 8006399337547550] rne_def)
  have f50: "round64 (29467997561806951 / 576460752303423488) = Fin (3683499695225869 / 72057594037927936)"
    by (simp add: round64_eval [where k = 57 and n = 7366999390451738] rne_def)
  have f51: "round64 (2105864997119882860446511223049 / 5070602400912917605986812821504) = Fin (7481535380974985 / 18014398509481984)"
    by (simp add: round64_eval [where k = 54 and n = 7481535380974985] rne_def)
  have f52: "round64 (146208110902686681 / 18014398509481984) = Fin (4569003465708959 / 562949953421312)"
    by (simp add: round64_eval [where k = 49 and n = 4569003465708959] rne_def)
  have f53: "round64 (- (16863478604709523 / 18014398509481984)) = Fin (- (4215869651177381 / 4503599627370496))"
    by (simp add: round64_eval [where k = 53 and n = "- 8431739302354762"] rne_def)
  have f54: "round64 (- (31644314983475061446489053644087 / 162259276829213363391578010288128)) = Fin (- (7026449418628969 / 36028797018963968))"
    by (simp add: round64_eval [where k = 55 and n = "- 7026449418628969"] rne_def)
  have f55: "round64 (- (16802318609769925 / 36028797018963968)) = Fin (- (4200579652442481 / 9007199254740992))"
    by (simp add: round64_eval [where k = 54 and n = "- 8401159304884962"] rne_def)
  have f56: "round64 (13621998872910761 / 144115188075855872) = Fin (1702749859113845 / 18014398509481984)"
    by (simp add: round64_eval [where k = 56 and n = 6810999436455380] rne_def)
  have f57: "round64 (17773556915718492150159526019161 / 20282409603651670423947251286016) = Fin (7893044846926541 / 9007199254740992)"
    by (simp add: round64_eval [where k = 53 and n = 7893044846926541] rne_def)
  have f58: "round64 (80997100298269885 / 9007199254740992) = Fin (1265579692160467 / 140737488355328)"
    by (simp add: round64_eval [where k = 49 and n = 5062318768641868] rne_def)
  have f59: "round64 (- (17013598592288541 / 36028797018963968)) = Fin (- (4253399648072135 / 9007199254740992))"
    by (simp add: round64_eval [where k = 54 and n = "- 8506799296144270"] rne_def)
  have f60: "round64 (- (3803039685335085 / 9007199254740992)) = Fin (- (3803039685335085 / 9007199254740992))"
    by (simp add: round64_eval [where k = 54 and n = "- 7606079370670170"] rne_def)
  have f61: "round64 (16175847659208613568751726356475 / 81129638414606681695789005144064) = Fin (3591759702816469 / 18014398509481984)"
    by (simp add: round64_eval [where k = 55 and n = 7183519405632938] rne_def)
  have f62: "round64 (- (4809399602068493 / 18014398509481984)) = Fin (- (4809399602068493 / 18014398509481984))"
    by (simp add: round64_eval [where k = 54 and n = "- 4809399602068493"] rne_def)
  have f63: "round64 (18091408566220161871222163458225 / 81129638414606681695789005144064) = Fin (4017099667623683 / 18014398509481984)"
    by (simp add: round64_eval [where k = 55 and n = 8034199335247366] rne_def)
  have f64: "round64 (714981190842191 / 2251799813685248) = Fin (714981190842191 / 2251799813685248)"
    by (simp add: round64_eval [where k = 54 and n = 5719849526737528] rne_def)
  have f65: "round64 (14463110848233582330808731957225 / 81129638414606681695789005144064) = Fin (200715983392685 / 1125899906842624)"
    by (simp add: round64_eval [where k = 55 and n = 6422911468565920] rne_def)
  have f66: "round64 (10325353520676421 / 1125899906842624) = Fin (2581338380169105 / 281474976710656)"
    by (simp add: round64_eval [where k = 49 and n = 5162676760338210] rne_def)
  have f67: "round64 (1845608389019959045867948709055 / 633825300114114700748351602688) = Fin (6556918169380165 / 2251799813685248)"
    by (simp add: round64_eval [where k = 51 and n = 6556918169380165] rne_def)
  have f68: "round64 (sqrt (6556918169380165 / 2251799813685248)) = Fin (7685015839192441 / 4503599627370496)"
    by (simp add: round64_sqrt_eval [where k = 52 and n = 7685015839192441] power2_eq_square)
  have f69: "round64 (- (4809399602068493 / 30740063356769764)) = Fin (- (5636842059658661 / 36028797018963968))"
    by (simp add: round64_eval [where k = 55 and n = "- 5636842059658661"] rne_def)
  have f70: "round64 (- (2001599834386887 / 18014398509481984)) = Fin (- (2001599834386887 / 18014398509481984))"
    by (simp add: round64_eval [where k = 56 and n = "- 8006399337547548"] rne_def)
  have f71: "round64 (- (13260598902813127 / 18014398509481984)) = Fin (- (1657574862851641 / 2251799813685248))"
    by (simp add: round64_eval [where k = 53 and n = "- 6630299451406564"] rne_def)
  have f72: "round64 (- (19265398405973789 / 18014398509481984)) = Fin (- (4816349601493447 / 4503599627370496))"
    by (simp add: round64_eval [where k = 52 and n = "- 4816349601493447"] rne_def)
  have f73: "round64 (8694449280618041 / 4503599627370496) = Fin (8694449280618041 / 4503599627370496)"
    by (simp add: round64_eval [where k = 52 and n = 8694449280618041] rne_def)
  have f74: "round64 (7005599420354105 / 4503599627370496) = Fin (7005599420354105 / 4503599627370496)"
    by (simp add: round64_eval [where k = 52 and n = 7005599420354105] rne_def)
  have f75: "round64 (1401119884070821 / 4503599627370496) = Fin (1401119884070821 / 4503599627370496)"
    by (simp add: round64_eval [where k = 54 and n = 5604479536283284] rne_def)
  have f76: "round64 (- (2501999792983609 / 4503599627370496)) = Fin (- (2501999792983609 / 4503599627370496))"
    by (simp add: round64_eval [where k = 53 and n = "- 5003999585967218"] rne_def)
  have f77: "round64 (- (1939049839562297 / 4503599627370496)) = Fin (- (1939049839562297 / 4503599627370496))"
    by (simp add: round64_eval [where k = 54 and n = "- 7756199358249188"] rne_def)
  have f78: "round64 (- (9757799192636075 / 18014398509481984)) = Fin (- (2439449798159019 / 4503599627370496))"
    by (simp add: round64_eval [where k = 53 and n = "- 4878899596318038"] rne_def)
  have f79: "round64 (- (1876499844737707 / 4503599627370496)) = Fin (- (1876499844737707 / 4503599627370496))"
    by (simp add: round64_eval [where k = 54 and n = "- 7505999378950828"] rne_def)
  have f80: "round64 (- (1876499844737707 / 22517998136852480)) = Fin (- (3002399751580331 / 36028797018963968))"
    by (simp add: round64_eval [where k = 56 and n = "- 6004799503160662"] rne_def)
  have f81: "round64 (- (7606079370670171 / 18014398509481984)) = Fin (- (7606079370670171 / 18014398509481984))"
    by (simp add: round64_eval [where k = 54 and n = "- 7606079370670171"] rne_def)
  have f82: "round64 (32351695318417231390903100785085 / 162259276829213363391578010288128) = Fin (7183519405632939 / 36028797018963968)"
    by (simp add: round64_eval [where k = 55 and n = 7183519405632939] rne_def)
  have f83: "round64 (7183519405632939 / 36028797018963968) = Fin (7183519405632939 / 36028797018963968)"
    by (simp add: round64_eval [where k = 55 and n = 7183519405632939] rne_def)
  have f84: "round64 (57852443392934344535393669169241 / 324518553658426726783156020576256) = Fin (3211455734282961 / 18014398509481984)"
    by (simp add: round64_eval [where k = 55 and n = 6422911468565922] rne_def)
  have f85: "round64 (3211455734282961 / 18014398509481984) = Fin (3211455734282961 / 18014398509481984)"
    by (simp add: round64_eval [where k = 55 and n = 6422911468565922] rne_def)
  have f86: "round64 (4017099667623683 / 18014398509481984) = Fin (4017099667623683 / 18014398509481984)"
    by (simp add: round64_eval [where k = 55 and n = 8034199335247366] rne_def)
  have f87: "round64 (- (4215869651177381 / 4503599627370496)) = Fin (- (4215869651177381 / 4503599627370496))"
    by (simp add: round64_eval [where k = 53 and n = "- 8431739302354762"] rne_def)
  have f88: "round64 (78534993501985 / 18014398509481984) = Fin (78534993501985 / 18014398509481984)"
    by (simp add: round64_eval [where k = 60 and n = 5026239584127040] rne_def)
  have f89: "round64 (18997545428136043 / 18014398509481984) = Fin (4749386357034011 / 4503599627370496)"
    by (simp add: round64_eval [where k = 52 and n = 4749386357034011] rne_def)
  have f90: "round64 (38391796823448487 / 144115188075855872) = Fin (4798974602931061 / 18014398509481984)"
    by (simp add: round64_eval [where k = 54 and n = 4798974602931061] rne_def)
  have f91: "round64 (- (11609279039443945 / 18014398509481984)) = Fin (- (1451159879930493 / 2251799813685248))"
    by (simp add: round64_eval [where k = 53 and n = "- 5804639519721972"] rne_def)
  have f92: "round64 (- (7111239411613417 / 144115188075855872)) = Fin (- (7111239411613417 / 144115188075855872))"
    by (simp add: round64_eval [where k = 57 and n = "- 7111239411613417"] rne_def)
  have f93: "round64 (26479080809111029 / 18014398509481984) = Fin (6619770202277757 / 4503599627370496)"
    by (simp add: round64_eval [where k = 52 and n = 6619770202277757] rne_def)
  have f94: "round64 (157570386962567727 / 576460752303423488) = Fin (4924074592580241 / 18014398509481984)"
    by (simp add: round64_eval [where k = 54 and n = 4924074592580241] rne_def)
  have f95: "round64 (12109678998040667 / 4503599627370496) = Fin (3027419749510167 / 1125899906842624)"
    by (simp add: round64_eval [where k = 51 and n = 6054839499020334] rne_def)
  have f96: "round64 (- (17875398520982893 / 144115188075855872)) = Fin (- (4468849630245723 / 36028797018963968))"
    by (simp add: round64_eval [where k = 56 and n = "- 8937699260491446"] rne_def)
  have f97: "round64 (39181351508120445 / 4503599627370496) = Fin (306104308657191 / 35184372088832)"
    by (simp add: round64_eval [where k = 49 and n = 4897668938515056] rne_def)
  have f98: "round64 (316030373851529595 / 1152921504606846976) = Fin (2468987295715075 / 9007199254740992)"
    by (simp add: round64_eval [where k = 54 and n = 4937974591430150] rne_def)
  have f99: "round64 (- (3089969744334757 / 4503599627370496)) = Fin (- (3089969744334757 / 4503599627370496))"
    by (simp add: round64_eval [where k = 53 and n = "- 6179939488669514"] rne_def)
  have f100: "round64 (- (9618799204136985 / 36028797018963968)) = Fin (- (1202349900517123 / 4503599627370496))"
    by (simp add: round64_eval [where k = 54 and n = "- 4809399602068492"] rne_def)
  have f101: "round64 (45758796213900223 / 144115188075855872) = Fin (714981190842191 / 2251799813685248)"
    by (simp add: round64_eval [where k = 54 and n = 5719849526737528] rne_def)
  have f102: "round64 (- (1202349900517123 / 7685015839192441)) = Fin (- (1409210514914665 / 9007199254740992))"
    by (simp add: round64_eval [where k = 55 and n = "- 5636842059658660"] rne_def)
  have u5: "[0 ..< 5] = [0, 1, 2, 3, 4 :: nat]" by (simp add: upt_rec)
  have u7: "[Suc 0 ..< 7] = [1, 2, 3, 4, 5, 6 :: nat]" by (simp add: upt_rec)
  show ?thesis
    using
      f0 f1 f2 f3 f4 f5 f6 f7 f8 f9 f10 f11 f12 f13 f14 f15 f16 f17 f18 f19 f20 f21 f22
      f23 f24 f25 f26 f27 f28 f29 f30 f31 f32 f33 f34 f35 f36 f37 f38 f39 f40 f41 f42 f43
      f44 f45 f46 f47 f48 f49 f50 f51 f52 f53 f54 f55 f56 f57 f58 f59 f60 f61 f62 f63 f64
      f65 f66 f67 f68 f69 f70 f71 f72 f73 f74 f75 f76 f77 f78 f79 f80 f81 f82 f83 f84 f85
      f86 f87 f88 f89 f90 f91 f92 f93 f94 f95 f96 f97 f98 f99 f100 f101 f102
    by (simp add: pearson64_def rateMap64_def common_dates64_def forward_example_bars
          backward_example_bars Let_def u5 u7 map_get_def)
qed

end
